theory Spec2Isabelle
  imports Main
begin

section \<open>Python values used by the spider\<close>

text \<open>
  A Python \<open>str\<close> is a sequence of Unicode code points and a \<open>bytes\<close> object a
  sequence of numbers below 256; both are lists of naturals.  An ASCII text and its
  UTF-8 encoding are then the same list.  \<open>lit\<close> turns a literal of the theory into
  the Python string with the same characters.
\<close>

type_synonym pystr = "nat list"
type_synonym pybytes = "nat list"

definition lit :: "string \<Rightarrow> pystr" where
  "lit s = map of_char s"

text \<open>
  The exceptions the program raises or lets through.  \<open>ValueError msg\<close> is
  \<open>ValueError(msg)\<close>; \<open>ValueErrorText msg t\<close> is \<open>ValueError(msg, t)\<close>;
  \<open>ValueErrorCause msg e\<close> is \<open>ValueError(msg, e)\<close> for a caught exception \<open>e\<close>;
  \<open>KeyError k\<close> is the failed lookup of key \<open>k\<close> in a dict.
  \<open>Unmodelled\<close> is no exception of Python: it marks the one place where the
  model stops short of the program, \<open>str()\<close> of a float or of a container.
\<close>

datatype exn =
    ValueError string
  | ValueErrorText string pystr
  | ValueErrorCause string exn
  | KeyError pystr
  | TypeError string
  | AttributeError string
  | JSONDecodeError
  | OverflowError
  | UnicodeEncodeError
  | UnicodeDecodeError
  | Unmodelled string

subsection \<open>String methods\<close>

definition startswith :: "pystr \<Rightarrow> pystr \<Rightarrow> bool" where
  "startswith s p = (take (length p) s = p)"

definition endswith :: "pystr \<Rightarrow> pystr \<Rightarrow> bool" where
  "endswith s p = (length p \<le> length s \<and> drop (length s - length p) s = p)"

text \<open>\<open>needle in haystack\<close>.\<close>

fun str_contains :: "pystr \<Rightarrow> pystr \<Rightarrow> bool" where
  "str_contains needle [] = (needle = [])"
| "str_contains needle (c # cs) = (startswith (c # cs) needle \<or> str_contains needle cs)"

text \<open>\<open>s.split(sep)\<close> for a separator of one character.\<close>

fun split :: "nat \<Rightarrow> pystr \<Rightarrow> pystr list" where
  "split sep [] = [[]]"
| "split sep (c # cs) =
     (if c = sep then [] # split sep cs
      else (case split sep cs of [] \<Rightarrow> [[c]] | x # xs \<Rightarrow> (c # x) # xs))"

text \<open>\<open>sep.join(xs)\<close>.\<close>

fun join :: "pystr \<Rightarrow> pystr list \<Rightarrow> pystr" where
  "join sep [] = []"
| "join sep [x] = x"
| "join sep (x # y # ys) = x @ sep @ join sep (y # ys)"

subsection \<open>Regular expressions of the shape \<open>(?<=P).*?(?=t)\<close>\<close>

text \<open>
  All three patterns of the extractor have this shape: a look-behind for a literal
  \<open>P\<close>, a lazy \<open>.*?\<close>, and a look-ahead for one character \<open>t\<close>.
  \<open>dot_star_lazy t rest\<close> is the match of \<open>.*?(?=t)\<close> at the start of \<open>rest\<close>:
  the shortest run of characters other than newline that is followed by \<open>t\<close>.
  \<open>re_search\<close> is \<open>re.search\<close>: it tries every position from the left, \<open>seen\<close>
  being the text before the position, and returns the matched text.
\<close>

fun dot_star_lazy :: "nat \<Rightarrow> pystr \<Rightarrow> pystr option" where
  "dot_star_lazy t [] = None"
| "dot_star_lazy t (c # cs) =
     (if c = t then Some []
      else if c = 10 then None
      else map_option ((#) c) (dot_star_lazy t cs))"

fun re_search_from :: "pystr \<Rightarrow> nat \<Rightarrow> pystr \<Rightarrow> pystr \<Rightarrow> pystr option" where
  "re_search_from P t seen [] = None"
| "re_search_from P t seen (c # cs) =
     (case (if endswith seen P then dot_star_lazy t (c # cs) else None) of
        Some m \<Rightarrow> Some m
      | None \<Rightarrow> re_search_from P t (seen @ [c]) cs)"

definition re_search :: "pystr \<Rightarrow> nat \<Rightarrow> pystr \<Rightarrow> pystr option" where
  "re_search P t s = re_search_from P t [] s"

subsection \<open>UTF-8\<close>

text \<open>
  \<open>s.encode('utf-8')\<close>: a surrogate code point cannot be encoded.
\<close>

definition utf8_char :: "nat \<Rightarrow> pybytes option" where
  "utf8_char c =
     (if c < 0x80 then Some [c]
      else if c < 0x800 then Some [0xC0 + c div 64, 0x80 + c mod 64]
      else if c < 0x10000 then
        (if 0xD800 \<le> c \<and> c \<le> 0xDFFF then None
         else Some [0xE0 + c div 4096, 0x80 + (c div 64) mod 64, 0x80 + c mod 64])
      else Some [0xF0 + c div 262144, 0x80 + (c div 4096) mod 64,
                 0x80 + (c div 64) mod 64, 0x80 + c mod 64])"

fun encode_utf8 :: "pystr \<Rightarrow> exn + pybytes" where
  "encode_utf8 [] = Inr []"
| "encode_utf8 (c # cs) =
     (case utf8_char c of
        None \<Rightarrow> Inl UnicodeEncodeError
      | Some bs \<Rightarrow> (case encode_utf8 cs of Inl e \<Rightarrow> Inl e | Inr r \<Rightarrow> Inr (bs @ r)))"

text \<open>
  \<open>b.decode('utf-8')\<close>, strict: continuation bytes are in \<open>0x80..0xBF\<close>, and the
  second byte is narrowed after \<open>0xE0\<close>, \<open>0xED\<close>, \<open>0xF0\<close> and \<open>0xF4\<close> so that
  overlong forms, surrogates and values above \<open>0x10FFFF\<close> are refused.
\<close>

definition cont :: "nat \<Rightarrow> bool" where
  "cont b = (0x80 \<le> b \<and> b \<le> 0xBF)"

definition second_ok :: "nat \<Rightarrow> nat \<Rightarrow> bool" where
  "second_ok b0 b1 =
     (if b0 = 0xE0 then 0xA0 \<le> b1 \<and> b1 \<le> 0xBF
      else if b0 = 0xED then 0x80 \<le> b1 \<and> b1 \<le> 0x9F
      else if b0 = 0xF0 then 0x90 \<le> b1 \<and> b1 \<le> 0xBF
      else if b0 = 0xF4 then 0x80 \<le> b1 \<and> b1 \<le> 0x8F
      else cont b1)"

fun decode_utf8 :: "pybytes \<Rightarrow> exn + pystr" where
  "decode_utf8 [] = Inr []"
| "decode_utf8 (b0 # bs) =
     (if b0 < 0x80 then
        (case decode_utf8 bs of Inl e \<Rightarrow> Inl e | Inr r \<Rightarrow> Inr (b0 # r))
      else if 0xC2 \<le> b0 \<and> b0 \<le> 0xDF then
        (case bs of
           b1 # r1 \<Rightarrow>
             (if cont b1 then
                (case decode_utf8 r1 of Inl e \<Rightarrow> Inl e
                 | Inr r \<Rightarrow> Inr (((b0 - 0xC0) * 64 + (b1 - 0x80)) # r))
              else Inl UnicodeDecodeError)
         | _ \<Rightarrow> Inl UnicodeDecodeError)
      else if 0xE0 \<le> b0 \<and> b0 \<le> 0xEF then
        (case bs of
           b1 # b2 # r2 \<Rightarrow>
             (if second_ok b0 b1 \<and> cont b2 then
                (case decode_utf8 r2 of Inl e \<Rightarrow> Inl e
                 | Inr r \<Rightarrow>
                     Inr (((b0 - 0xE0) * 4096 + (b1 - 0x80) * 64 + (b2 - 0x80)) # r))
              else Inl UnicodeDecodeError)
         | _ \<Rightarrow> Inl UnicodeDecodeError)
      else if 0xF0 \<le> b0 \<and> b0 \<le> 0xF4 then
        (case bs of
           b1 # b2 # b3 # r3 \<Rightarrow>
             (if second_ok b0 b1 \<and> cont b2 \<and> cont b3 then
                (case decode_utf8 r3 of Inl e \<Rightarrow> Inl e
                 | Inr r \<Rightarrow>
                     Inr (((b0 - 0xF0) * 262144 + (b1 - 0x80) * 4096
                           + (b2 - 0x80) * 64 + (b3 - 0x80)) # r))
              else Inl UnicodeDecodeError)
         | _ \<Rightarrow> Inl UnicodeDecodeError)
      else Inl UnicodeDecodeError)"

subsection \<open>Decimal integers\<close>

text \<open>\<open>str(i)\<close> for an integer.\<close>

fun digits :: "nat \<Rightarrow> pystr" where
  "digits n = (if n < 10 then [48 + n] else digits (n div 10) @ [48 + n mod 10])"

declare digits.simps [simp del]

definition str_int :: "int \<Rightarrow> pystr" where
  "str_int i = (if i < 0 then 45 # digits (nat (- i)) else digits (nat i))"

subsection \<open>Base64\<close>

text \<open>
  \<open>b64_char i\<close> is the \<open>i\<close>-th character of the standard alphabet
  \<open>A..Z a..z 0..9 + /\<close>; \<open>base64.b64encode\<close> maps three bytes to four
  characters and pads the last group with \<open>=\<close>.
\<close>

definition b64_char :: "nat \<Rightarrow> nat" where
  "b64_char i =
     (if i < 26 then 65 + i
      else if i < 52 then 71 + i
      else if i < 62 then i - 4
      else if i = 62 then 43
      else 47)"

fun b64encode :: "pybytes \<Rightarrow> pybytes" where
  "b64encode [] = []"
| "b64encode [a] = [b64_char (a div 4), b64_char ((a mod 4) * 16), 61, 61]"
| "b64encode [a, b] =
     [b64_char (a div 4), b64_char ((a mod 4) * 16 + b div 16),
      b64_char ((b mod 16) * 4), 61]"
| "b64encode (a # b # c # rest) =
     [b64_char (a div 4), b64_char ((a mod 4) * 16 + b div 16),
      b64_char ((b mod 16) * 4 + c div 64), b64_char (c mod 64)] @ b64encode rest"

text \<open>
  Decoding of padded base64 text, to state what an encoded value decodes to:
  the inverse of the alphabet, four characters to three bytes, padding in the last
  group only.  \<open>None\<close> is text that is not of that form.
\<close>

definition b64_index :: "nat \<Rightarrow> nat option" where
  "b64_index c =
     (if 65 \<le> c \<and> c \<le> 90 then Some (c - 65)
      else if 97 \<le> c \<and> c \<le> 122 then Some (c - 71)
      else if 48 \<le> c \<and> c \<le> 57 then Some (c + 4)
      else if c = 43 then Some 62
      else if c = 47 then Some 63
      else None)"

fun b64decode :: "pybytes \<Rightarrow> pybytes option" where
  "b64decode [] = Some []"
| "b64decode [w, x, y, z] =
     (case (b64_index w, b64_index x) of
        (Some i, Some j) \<Rightarrow>
          (if y = 61 \<and> z = 61 then
             (if j mod 16 = 0 then Some [i * 4 + j div 16] else None)
           else if z = 61 then
             (case b64_index y of
                Some k \<Rightarrow>
                  (if k mod 4 = 0
                   then Some [i * 4 + j div 16, (j mod 16) * 16 + k div 4] else None)
              | None \<Rightarrow> None)
           else
             (case (b64_index y, b64_index z) of
                (Some k, Some l) \<Rightarrow>
                  Some [i * 4 + j div 16, (j mod 16) * 16 + k div 4, (k mod 4) * 64 + l]
              | _ \<Rightarrow> None))
      | _ \<Rightarrow> None)"
| "b64decode (w # x # y # z # rest) =
     (case (b64_index w, b64_index x, b64_index y, b64_index z, b64decode rest) of
        (Some i, Some j, Some k, Some l, Some r) \<Rightarrow>
          Some ([i * 4 + j div 16, (j mod 16) * 16 + k div 4, (k mod 4) * 64 + l] @ r)
      | _ \<Rightarrow> None)"
| "b64decode _ = None"

section \<open>JSON\<close>

text \<open>
  The values \<open>json.loads\<close> returns.  A number with a fraction or an exponent is a
  Python float; the model keeps its text.  An object keeps its members in the order
  of the text; \<open>dict_get\<close> is the lookup in the dict built from them, where the
  last of several equal keys wins.
\<close>

datatype json =
    JNull
  | JBool bool
  | JInt int
  | JFloat pystr
  | JString pystr
  | JArray "json list"
  | JObject "(pystr \<times> json) list"

definition dict_get :: "(pystr \<times> json) list \<Rightarrow> pystr \<Rightarrow> json option" where
  "dict_get kvs k = map_of (rev kvs) k"

definition is_ws :: "nat \<Rightarrow> bool" where
  "is_ws c = (c = 32 \<or> c = 9 \<or> c = 10 \<or> c = 13)"

definition is_digit :: "nat \<Rightarrow> bool" where
  "is_digit c = (48 \<le> c \<and> c \<le> 57)"

definition skip_ws :: "pystr \<Rightarrow> pystr" where
  "skip_ws s = dropWhile is_ws s"

subsection \<open>Strings\<close>

definition hex_val :: "nat \<Rightarrow> nat option" where
  "hex_val c =
     (if 48 \<le> c \<and> c \<le> 57 then Some (c - 48)
      else if 65 \<le> c \<and> c \<le> 70 then Some (c - 55)
      else if 97 \<le> c \<and> c \<le> 102 then Some (c - 87)
      else None)"

text \<open>The four hexadecimal digits after \<open>\u\<close>.\<close>

fun decode_uXXXX :: "pystr \<Rightarrow> nat option" where
  "decode_uXXXX (a # b # c # d # r) =
     (case (hex_val a, hex_val b, hex_val c, hex_val d) of
        (Some w, Some x, Some y, Some z) \<Rightarrow> Some (((w * 16 + x) * 16 + y) * 16 + z)
      | _ \<Rightarrow> None)"
| "decode_uXXXX _ = None"

definition backslash :: "nat \<Rightarrow> nat option" where
  "backslash e =
     (if e = 34 then Some 34
      else if e = 92 then Some 92
      else if e = 47 then Some 47
      else if e = 98 then Some 8
      else if e = 102 then Some 12
      else if e = 110 then Some 10
      else if e = 114 then Some 13
      else if e = 116 then Some 9
      else None)"

definition cons_chunk :: "nat \<Rightarrow> (pystr \<times> pystr) option \<Rightarrow> (pystr \<times> pystr) option" where
  "cons_chunk c res = (case res of None \<Rightarrow> None | Some (str, r) \<Rightarrow> Some (c # str, r))"

text \<open>
  The text after an opening quote, up to the closing one: the decoded string and
  the rest of the input.  Control characters are refused (strict mode), and a high
  surrogate escape followed by a low surrogate escape is one character.
\<close>

fun scan_string :: "pystr \<Rightarrow> (pystr \<times> pystr) option" where
  "scan_string [] = None"
| "scan_string (c # cs) =
     (if c = 34 then Some ([], cs)
      else if c = 92 then
        (case cs of
           [] \<Rightarrow> None
         | e # r \<Rightarrow>
             (if e = 117 then
                (case decode_uXXXX r of
                   None \<Rightarrow> None
                 | Some uni \<Rightarrow>
                     (if 0xD800 \<le> uni \<and> uni \<le> 0xDBFF \<and> startswith (drop 4 r) [92, 117] then
                        (case decode_uXXXX (drop 6 r) of
                           None \<Rightarrow> None
                         | Some uni2 \<Rightarrow>
                             (if 0xDC00 \<le> uni2 \<and> uni2 \<le> 0xDFFF then
                                cons_chunk (0x10000 + (uni - 0xD800) * 1024 + (uni2 - 0xDC00))
                                  (scan_string (drop 10 r))
                              else cons_chunk uni (scan_string (drop 4 r))))
                      else cons_chunk uni (scan_string (drop 4 r))))
              else
                (case backslash e of
                   None \<Rightarrow> None
                 | Some ch \<Rightarrow> cons_chunk ch (scan_string r))))
      else if c < 32 then None
      else cons_chunk c (scan_string cs))"

subsection \<open>Numbers\<close>

text \<open>
  The number pattern \<open>(-?(?:0|[1-9][0-9]*))(\.[0-9]+)?([eE][-+]?[0-9]+)?\<close>: the
  integer part, then a fraction and an exponent where they are complete.
\<close>

definition int_of_digits :: "pystr \<Rightarrow> nat" where
  "int_of_digits ds = foldl (\<lambda>a d. 10 * a + (d - 48)) 0 ds"

definition fraction_of :: "pystr \<Rightarrow> pystr" where
  "fraction_of s =
     (case s of
        [] \<Rightarrow> []
      | p # r \<Rightarrow> if p = 46 \<and> takeWhile is_digit r \<noteq> [] then p # takeWhile is_digit r else [])"

definition exponent_of :: "pystr \<Rightarrow> pystr" where
  "exponent_of s =
     (case s of
        [] \<Rightarrow> []
      | e # r \<Rightarrow>
          (if e = 101 \<or> e = 69 then
             (let sg = (case r of [] \<Rightarrow> [] | c # _ \<Rightarrow> if c = 43 \<or> c = 45 then [c] else []);
                  ds = takeWhile is_digit (drop (length sg) r)
              in if ds = [] then [] else e # sg @ ds)
           else []))"

definition scan_number :: "pystr \<Rightarrow> (json \<times> pystr) option" where
  "scan_number s =
     (let sg = (case s of [] \<Rightarrow> [] | c # _ \<Rightarrow> if c = 45 then [c] else []);
          s1 = drop (length sg) s
      in case s1 of
           [] \<Rightarrow> None
         | d # r \<Rightarrow>
             (if \<not> is_digit d then None
              else
                (let ip = (if d = 48 then [d] else d # takeWhile is_digit r);
                     s2 = drop (length ip) s1;
                     fr = fraction_of s2;
                     s3 = drop (length fr) s2;
                     ex = exponent_of s3;
                     s4 = drop (length ex) s3
                 in if fr = [] \<and> ex = []
                    then Some (JInt (if sg = [] then int (int_of_digits ip)
                                     else - int (int_of_digits ip)), s4)
                    else Some (JFloat (sg @ ip @ fr @ ex), s4))))"

lemma cons_chunk_Some: "cons_chunk c res = Some (str, r) \<Longrightarrow> \<exists>str'. res = Some (str', r)"
  by (auto simp: cons_chunk_def split: option.splits)

lemma scan_string_shorter: "scan_string s = Some (str, r) \<Longrightarrow> length r < length s"
proof (induction "length s" arbitrary: s str r rule: less_induct)
  case less
  note IH = less.hyps
  show ?case
  proof (cases s)
    case Nil
    with less.prems show ?thesis by simp
  next
    case (Cons c cs)
    have step: "length r < Suc n"
      if "cons_chunk ch (scan_string t) = Some (str, r)" "length t < length s" "length t \<le> n"
      for ch t n
    proof -
      from that(1) obtain str' where "scan_string t = Some (str', r)"
        by (auto dest: cons_chunk_Some)
      from IH[OF that(2) this] that(3) show ?thesis by simp
    qed
    show ?thesis using less.prems Cons
      by (auto split: if_splits list.splits option.splits intro: step)
  qed
qed

lemma skip_ws_length: "length (skip_ws s) \<le> length s"
  by (simp add: skip_ws_def length_dropWhile_le)

lemma scan_number_shorter: "scan_number s = Some (v, r) \<Longrightarrow> length r < length s"
  by (auto simp: scan_number_def Let_def split: list.splits if_splits)

subsection \<open>Values\<close>

text \<open>
  The scanner of \<open>json\<close>: a value starts with its first character; arrays and
  objects allow whitespace between their tokens.  \<open>parse_elements\<close> reads the
  elements of an array after its first one was found to be there, \<open>parse_members\<close>
  the members of an object from the quote of a key.  Each returns the value and the
  rest of the input, and \<open>None\<close> where the scanner raises \<open>JSONDecodeError\<close>.
  The comparisons of lengths in the two loops are there for the termination proof
  only: \<open>parse_value_shorter\<close> shows that they always hold.
\<close>

function parse_value :: "pystr \<Rightarrow> (json \<times> pystr) option"
  and parse_elements :: "pystr \<Rightarrow> (json list \<times> pystr) option"
  and parse_members :: "pystr \<Rightarrow> ((pystr \<times> json) list \<times> pystr) option"
where
  "parse_value s =
     (case s of
        [] \<Rightarrow> None
      | c # cs \<Rightarrow>
          (if c = 34 then
             (case scan_string cs of None \<Rightarrow> None | Some (str, r) \<Rightarrow> Some (JString str, r))
           else if c = 123 then
             (case skip_ws cs of
                [] \<Rightarrow> None
              | d # r \<Rightarrow>
                  (if d = 125 then Some (JObject [], r)
                   else (case parse_members (d # r) of
                           None \<Rightarrow> None
                         | Some (kvs, rk) \<Rightarrow> Some (JObject kvs, rk))))
           else if c = 91 then
             (case skip_ws cs of
                [] \<Rightarrow> None
              | d # r \<Rightarrow>
                  (if d = 93 then Some (JArray [], r)
                   else (case parse_elements (d # r) of
                           None \<Rightarrow> None
                         | Some (vs, rk) \<Rightarrow> Some (JArray vs, rk))))
           else if startswith s (lit ''null'') then Some (JNull, drop 4 s)
           else if startswith s (lit ''true'') then Some (JBool True, drop 4 s)
           else if startswith s (lit ''false'') then Some (JBool False, drop 5 s)
           else
             (case scan_number s of
                Some res \<Rightarrow> Some res
              | None \<Rightarrow>
                  (if startswith s (lit ''NaN'') then Some (JFloat (lit ''NaN''), drop 3 s)
                   else if startswith s (lit ''Infinity'')
                     then Some (JFloat (lit ''Infinity''), drop 8 s)
                   else if startswith s (lit ''-Infinity'')
                     then Some (JFloat (lit ''-Infinity''), drop 9 s)
                   else None))))"
| "parse_elements s =
     (case parse_value s of
        None \<Rightarrow> None
      | Some (v, r) \<Rightarrow>
          (case skip_ws r of
             [] \<Rightarrow> None
           | d # rd \<Rightarrow>
               (if d = 93 then Some ([v], rd)
                else if d = 44 \<and> length rd < length s then
                  (case parse_elements (skip_ws rd) of
                     None \<Rightarrow> None
                   | Some (vs, rr) \<Rightarrow> Some (v # vs, rr))
                else None)))"
| "parse_members s =
     (case s of
        [] \<Rightarrow> None
      | q # cs \<Rightarrow>
          (if q \<noteq> 34 then None
           else
             (case scan_string cs of
                None \<Rightarrow> None
              | Some (key, r1) \<Rightarrow>
                  (case skip_ws r1 of
                     [] \<Rightarrow> None
                   | col # r2 \<Rightarrow>
                       (if col \<noteq> 58 then None
                        else
                          (case parse_value (skip_ws r2) of
                             None \<Rightarrow> None
                           | Some (v, r3) \<Rightarrow>
                               (case skip_ws r3 of
                                  [] \<Rightarrow> None
                                | d # r4 \<Rightarrow>
                                    (if d = 125 then Some ([(key, v)], r4)
                                     else if d = 44 \<and> length r4 < length s then
                                       (case parse_members (skip_ws r4) of
                                          None \<Rightarrow> None
                                        | Some (kvs, r5) \<Rightarrow> Some ((key, v) # kvs, r5))
                                     else None))))))))"
  by pat_completeness auto
termination
proof (relation "measures [\<lambda>x. case x of Inl s \<Rightarrow> length s | Inr (Inl s) \<Rightarrow> length s | Inr (Inr s) \<Rightarrow> length s,
                           \<lambda>x. case x of Inl s \<Rightarrow> 0 | Inr (Inl s) \<Rightarrow> 1 | Inr (Inr s) \<Rightarrow> 1]", goal_cases)
  case 1 show ?case by simp
next
  case (2 s c cs d r)
  have "length (skip_ws cs) \<le> length cs" by (rule skip_ws_length)
  with 2 show ?case by simp
next
  case (3 s c cs d r)
  have "length (skip_ws cs) \<le> length cs" by (rule skip_ws_length)
  with 3 show ?case by simp
next
  case (4 s) show ?case by simp
next
  case (5 s x v r d r')
  have "length (skip_ws r') \<le> length r'" by (rule skip_ws_length)
  with 5 show ?case by simp
next
  case (6 s q cs x key r1 col r2)
  have a: "length r1 < length cs" using 6 scan_string_shorter by blast
  have b: "length (skip_ws r1) \<le> length r1" by (rule skip_ws_length)
  have c: "length (skip_ws r2) \<le> length r2" by (rule skip_ws_length)
  from 6 a b c show ?case by simp
next
  case (7 s q cs x key r1 col r2 y v r3 d r4)
  have "length (skip_ws r4) \<le> length r4" by (rule skip_ws_length)
  with 7 show ?case by simp
qed


declare parse_value.simps [simp del] parse_elements.simps [simp del] parse_members.simps [simp del]

text \<open>
  \<open>json.loads(s)\<close> for a \<open>str\<close>: a leading byte order mark is refused, whitespace
  around the value is skipped, and anything after it is an error.
\<close>

definition json_loads :: "pystr \<Rightarrow> json option" where
  "json_loads s =
     (if startswith s [0xFEFF] then None
      else (case parse_value (skip_ws s) of
              None \<Rightarrow> None
            | Some (v, r) \<Rightarrow> if skip_ws r = [] then Some v else None))"

section \<open>Scrapy objects\<close>

text \<open>
  A voting group is the dict \<open>{"name": ..., "vote": ...}\<close>.  The \<open>meta\<close> dict of a
  request has the keys the spider ever stores; a key that is absent is \<open>None\<close>,
  and reading it raises \<open>KeyError\<close>.  Headers map a lower-case header name to the
  value \<open>headers.get\<close> returns for it.
\<close>

record group =
  name :: pystr
  vote :: pystr

record meta =
  meta_fake_platform :: "bool option"
  meta_group :: "group option"
  meta_os :: "pystr option"
  meta_carnivore_value :: "pystr option"
  meta_rats_hash :: "pystr option"

definition no_meta :: meta where
  "no_meta = \<lparr>meta_fake_platform = None, meta_group = None, meta_os = None,
               meta_carnivore_value = None, meta_rats_hash = None\<rparr>"

datatype callback = Parse | ParseHastorniJsFile | ParseDaxiongmaoJsFile | ParseVotingResult

datatype errback = HandleVoteFailure

type_synonym headers = "(string \<times> pybytes) list"

record request =
  req_url :: pystr
  req_method :: string
  req_headers :: headers
  req_cookies :: "(pystr \<times> pystr) list"
  req_formdata :: "(pystr \<times> pystr) list option"
  req_meta :: meta
  req_callback :: callback
  req_errback :: "errback option"
  req_dont_filter :: bool

text \<open>
  The parsed page: an element has a tag, its attributes and its children.
  A response has its body text, its headers, the parsed page, the request it
  answers and its \<open>urljoin\<close> method; \<open>response.meta\<close> is the meta of that request.
\<close>

datatype element = Element (tag: pystr) (attrib: "(pystr \<times> pystr) list") (children: "element list")

record response =
  resp_text :: pystr
  resp_headers :: headers
  resp_dom :: "element list"
  resp_request :: request
  resp_urljoin :: "pystr \<Rightarrow> pystr"

definition resp_meta :: "response \<Rightarrow> meta" where
  "resp_meta response = req_meta (resp_request response)"


text \<open>
  \<open>response.css("#carnivoreatingbambu input")\<close>: the \<open>input\<close> elements below an
  element whose id is \<open>carnivoreatingbambu\<close>, in document order.  The result is a
  list of selectors, empty when nothing matches, and the \<open>attrib\<close> of such a list
  is the attributes of its first element, or the empty dict.
\<close>

fun css_below :: "bool \<Rightarrow> element \<Rightarrow> element list" where
  "css_below inside (Element t a cs) =
     (if inside \<and> t = lit ''input'' then [Element t a cs] else [])
     @ concat (map (css_below (inside \<or> map_of a (lit ''id'') = Some (lit ''carnivoreatingbambu''))) cs)"

definition css_carnivoreatingbambu_input :: "response \<Rightarrow> element list" where
  "css_carnivoreatingbambu_input response = concat (map (css_below False) (resp_dom response))"

definition selector_list_attrib :: "element list \<Rightarrow> (pystr \<times> pystr) list" where
  "selector_list_attrib sel = (case sel of [] \<Rightarrow> [] | e # _ \<Rightarrow> attrib e)"

section \<open>extractor.py\<close>

subsection \<open>VotingPage\<close>

definition get_carnivore_value :: "response \<Rightarrow> exn + pystr" where
  "get_carnivore_value response =
     (case Some (css_carnivoreatingbambu_input response) of
        None \<Rightarrow>
          Inl (ValueError ''Input element with id 'carnivoreatingbambu' not found in the response.'')
      | Some input_element \<Rightarrow>
          (case map_of (selector_list_attrib input_element) (lit ''value'') of
             None \<Rightarrow> Inl (ValueError ''Value attribute not found in the input element.'')
           | Some v \<Rightarrow> Inr v))"

subsection \<open>HastorniJsFile\<close>

definition get_daxiongmao_file_url :: "response \<Rightarrow> pystr \<Rightarrow> exn + pystr" where
  "get_daxiongmao_file_url response ursidae_name =
     (case meta_os (resp_meta response) of
        None \<Rightarrow> Inl (KeyError (lit ''os''))
      | Some os \<Rightarrow>
     (case map_of (req_headers (resp_request response)) ''user-agent'' of
        None \<Rightarrow> Inl (KeyError (lit ''user-agent''))
      | Some ua_bytes \<Rightarrow>
     (case decode_utf8 ua_bytes of
        Inl e \<Rightarrow> Inl e
      | Inr ua \<Rightarrow>
     (case encode_utf8 (ua @ ursidae_name @ os) of
        Inl e \<Rightarrow> Inl e
      | Inr ua_ursidae_os \<Rightarrow>
     (case decode_utf8 (b64encode ua_ursidae_os) of
        Inl e \<Rightarrow> Inl e
      | Inr ua_ursidae_os_b64 \<Rightarrow>
     (case meta_carnivore_value (resp_meta response) of
        None \<Rightarrow> Inl (KeyError (lit ''carnivore_value''))
      | Some carnivore_value \<Rightarrow>
          Inr (resp_urljoin response
                 (lit ''/daxiongmao.js?'' @ carnivore_value @ lit ''='' @ ua_ursidae_os_b64
                  @ lit ''&key=aadfa''))))))))"

definition get_letters_map :: "pystr \<Rightarrow> exn + json" where
  "get_letters_map response_text =
     (case re_search (lit ''kretzoi = '') 59 response_text of
        None \<Rightarrow> Inl (ValueError ''Map not found in the response.'')
      | Some map_str \<Rightarrow>
          (case json_loads map_str of
             None \<Rightarrow> Inl (ValueError ''Error decoding map'')
           | Some map_ \<Rightarrow> Inr map_))"

text \<open>\<open>letters_map[letter]\<close> and \<open>str(...)\<close> on what \<open>json.loads\<close> returned.\<close>

fun getitem :: "json \<Rightarrow> pystr \<Rightarrow> exn + json" where
  "getitem (JObject kvs) k =
     (case dict_get kvs k of None \<Rightarrow> Inl (KeyError k) | Some v \<Rightarrow> Inr v)"
| "getitem (JArray vs) k = Inl (TypeError ''list indices must be integers or slices, not str'')"
| "getitem (JString s) k = Inl (TypeError ''string indices must be integers, not 'str' '')"
| "getitem v k = Inl (TypeError ''object is not subscriptable'')"

fun str :: "json \<Rightarrow> exn + pystr" where
  "str (JInt i) = Inr (str_int i)"
| "str (JString s) = Inr s"
| "str (JBool b) = Inr (if b then lit ''True'' else lit ''False'')"
| "str JNull = Inr (lit ''None'')"
| "str v = Inl (Unmodelled ''str() of a float or a container'')"

text \<open>\<open>[str(letters_map[letter]) for letter in group_name_letters]\<close>.\<close>

fun group_name_numbers :: "json \<Rightarrow> pystr list \<Rightarrow> exn + pystr list" where
  "group_name_numbers letters_map [] = Inr []"
| "group_name_numbers letters_map (letter # letters) =
     (case getitem letters_map letter of
        Inl e \<Rightarrow> Inl e
      | Inr v \<Rightarrow>
          (case str v of
             Inl e \<Rightarrow> Inl e
           | Inr n \<Rightarrow>
               (case group_name_numbers letters_map letters of
                  Inl e \<Rightarrow> Inl e
                | Inr ns \<Rightarrow> Inr (n # ns))))"

definition get_rats_hash :: "response \<Rightarrow> exn + pystr" where
  "get_rats_hash response =
     (case get_letters_map (resp_text response) of
        Inl e \<Rightarrow> Inl e
      | Inr letters_map \<Rightarrow>
     (case meta_group (resp_meta response) of
        None \<Rightarrow> Inl (KeyError (lit ''group''))
      | Some g \<Rightarrow>
          (let group_name = name g;
               group_name_letters = map (\<lambda>c. [c]) group_name
           in case group_name_numbers letters_map group_name_letters of
                Inl e \<Rightarrow> Inl e
              | Inr numbers \<Rightarrow>
                  (let rats_content = join (lit ''|'') numbers
                   in case encode_utf8 rats_content of
                        Inl e \<Rightarrow> Inl e
                      | Inr rats_content_encoded \<Rightarrow>
                          decode_utf8 (b64encode rats_content_encoded)))))"

text \<open>
  \<open>chr(letter)\<close>: an int in \<open>range(0x110000)\<close> is a character, and so is a bool;
  another int is a \<open>ValueError\<close>, or an \<open>OverflowError\<close> outside the C int range;
  anything else is a \<open>TypeError\<close>.
\<close>

fun chr :: "json \<Rightarrow> exn + nat" where
  "chr (JInt i) =
     (if 0 \<le> i \<and> i < 0x110000 then Inr (nat i)
      else if - 2147483648 \<le> i \<and> i \<le> 2147483647
        then Inl (ValueError ''chr() arg not in range(0x110000)'')
      else Inl OverflowError)"
| "chr (JBool b) = Inr (if b then 1 else 0)"
| "chr v = Inl (TypeError ''an integer is required'')"

text \<open>
  What iterating over a value yields: the elements of a list, the characters of a
  string, the keys of a dict; \<open>None\<close> for a value that is not iterable.
\<close>

fun iter :: "json \<Rightarrow> json list option" where
  "iter (JArray vs) = Some vs"
| "iter (JString s) = Some (map (\<lambda>c. JString [c]) s)"
| "iter (JObject kvs) = Some (map JString (remdups (map fst kvs)))"
| "iter v = None"

fun join_chr :: "json list \<Rightarrow> exn + pystr" where
  "join_chr [] = Inr []"
| "join_chr (letter # letters) =
     (case chr letter of
        Inl e \<Rightarrow> Inl e
      | Inr c \<Rightarrow> (case join_chr letters of Inl e \<Rightarrow> Inl e | Inr cs \<Rightarrow> Inr (c # cs)))"

definition convert_char_codes_to_str :: "json \<Rightarrow> exn + pystr" where
  "convert_char_codes_to_str char_codes =
     (case (case iter char_codes of
              None \<Rightarrow> Inl (TypeError ''object is not iterable'')
            | Some letters \<Rightarrow> join_chr letters) of
        Inl (TypeError m) \<Rightarrow> Inl (ValueError ''Input is not a list of character codes.'')
      | Inl e \<Rightarrow> Inl e
      | Inr s \<Rightarrow> Inr s)"

definition get_ursidae_name :: "pystr \<Rightarrow> exn + pystr" where
  "get_ursidae_name response_text =
     (case re_search (lit ''ursidae = '') 59 response_text of
        None \<Rightarrow> Inl (ValueError ''Char codes for Ursidae name not found in response text.'')
      | Some char_codes_str \<Rightarrow>
          (case json_loads char_codes_str of
             None \<Rightarrow> Inl (ValueError ''Char codes string is not a valid JSON object.'')
           | Some char_codes \<Rightarrow> convert_char_codes_to_str char_codes))"

subsection \<open>DaxiongmaoJsFile\<close>

definition get_rogue_racoons_hash :: "pystr \<Rightarrow> exn + pystr" where
  "get_rogue_racoons_hash response_text =
     (case re_search (lit ''oons\" value=\"'') 34 response_text of
        None \<Rightarrow> Inl (ValueError ''Rogue raccoons hash not found in response.'')
      | Some hash_ \<Rightarrow> Inr hash_)"

subsection \<open>Common\<close>

text \<open>
  \<open>key, value = session_cookie.split("=")\<close> unpacks a list of exactly two parts;
  any other number of parts is the \<open>ValueError\<close> of the unpacking.
\<close>

definition get_session_cookies :: "headers \<Rightarrow> exn + pystr \<times> pystr" where
  "get_session_cookies hs =
     (case map_of hs ''set-cookie'' of
        None \<Rightarrow> Inl (ValueError ''No 'Set-Cookie' header found in the response.'')
      | Some set_cookie_header \<Rightarrow>
     (case decode_utf8 set_cookie_header of
        Inl e \<Rightarrow> Inl e
      | Inr cookies_str \<Rightarrow>
          (let cookies = split 59 cookies_str
           in case find (\<lambda>cookie. startswith cookie (lit ''session='')) cookies of
                None \<Rightarrow> Inl (ValueError ''Session cookie not found in Set-Cookie.'')
              | Some session_cookie \<Rightarrow>
                  (case split 61 session_cookie of
                     [key, val] \<Rightarrow> Inr (key, val)
                   | [] \<Rightarrow> Inl (ValueError ''not enough values to unpack (expected 2, got 0)'')
                   | [key] \<Rightarrow> Inl (ValueError ''not enough values to unpack (expected 2, got 1)'')
                   | _ \<Rightarrow> Inl (ValueError ''too many values to unpack (expected 2)'')))))"

section \<open>middlewares.py\<close>

text \<open>
  The table of platforms, each an operating system and a user agent.
  \<open>random.choice\<close> is the entry at a position the caller supplies.
\<close>

record platform =
  platform_os :: pystr
  platform_ua :: pystr

definition all_platforms :: "platform list" where
  "all_platforms =
     [\<lparr>platform_os = lit ''Win32'',
       platform_ua = lit ''Mozilla/5.0 (Windows NT 5.1 rv: 52.0) Gecko/20100101 Firefox/52.0''\<rparr>,
      \<lparr>platform_os = lit ''Win64'',
       platform_ua = lit ''Mozilla/5.0 (Windows NT 10.0; Win64; x64) AppleWebKit/537.36 (KHTML, like Gecko) Chrome/89.0.4389.82 Safari/537.36''\<rparr>,
      \<lparr>platform_os = lit ''MacIntel'',
       platform_ua = lit ''Mozilla/5.0 (Macintosh; Intel Mac OS X 10_15_7) AppleWebKit/605.1.15 (KHTML, like Gecko) Version/14.0 Safari/605.1.15''\<rparr>,
      \<lparr>platform_os = lit ''iPhone'',
       platform_ua = lit ''Mozilla/5.0 (iPhone; CPU iPhone OS 14_2 like Mac OS X) AppleWebKit/605.1.15 (KHTML, like Gecko) Version/14.0 Mobile/15E148 Safari/604.1''\<rparr>,
      \<lparr>platform_os = lit ''iPad'',
       platform_ua = lit ''Mozilla/5.0 (iPad; CPU OS 14_2 like Mac OS X) AppleWebKit/605.1.15 (KHTML, like Gecko) Version/14.0 Mobile/15E148 Safari/604.1''\<rparr>,
      \<lparr>platform_os = lit ''Linux i686'',
       platform_ua = lit ''Mozilla/5.0 (X11; Linux i686; rv:52.0) Gecko/20100101 Firefox/52.0''\<rparr>,
      \<lparr>platform_os = lit ''Linux x86_64'',
       platform_ua = lit ''Mozilla/5.0 (X11; Linux x86_64) AppleWebKit/537.36 (KHTML, like Gecko) Chrome/89.0.4389.82 Safari/537.36''\<rparr>,
      \<lparr>platform_os = lit ''FreeBSD i386'',
       platform_ua = lit ''Mozilla/5.0 (FreeBSD; U; FreeBSD i386; en-US) AppleWebKit/537.36 (KHTML, like Gecko) Chrome/79.0.3945.79 Safari/537.36''\<rparr>,
      \<lparr>platform_os = lit ''FreeBSD amd64'',
       platform_ua = lit ''Mozilla/5.0 (FreeBSD; U; FreeBSD amd64; en-US) AppleWebKit/537.36 (KHTML, like Gecko) Chrome/79.0.3945.79 Safari/537.36''\<rparr>,
      \<lparr>platform_os = lit ''OpenBSD i386'',
       platform_ua = lit ''Mozilla/5.0 (X11; OpenBSD i386; rv:52.0) Gecko/20100101 Firefox/52.0''\<rparr>,
      \<lparr>platform_os = lit ''OpenBSD amd64'',
       platform_ua = lit ''Mozilla/5.0 (X11; OpenBSD amd64; rv:52.0) Gecko/20100101 Firefox/52.0''\<rparr>,
      \<lparr>platform_os = lit ''SunOS i86pc'',
       platform_ua = lit ''Mozilla/5.0 (X11; SunOS i86pc) AppleWebKit/537.36 (KHTML, like Gecko) Chrome/89.0.4389.82 Safari/537.36''\<rparr>,
      \<lparr>platform_os = lit ''SunOS sun4u'',
       platform_ua = lit ''Mozilla/5.0 (X11; SunOS sun4u) AppleWebKit/537.36 (KHTML, like Gecko) Chrome/89.0.4389.82 Safari/537.36''\<rparr>,
      \<lparr>platform_os = lit ''Android'',
       platform_ua = lit ''Mozilla/5.0 (Android; Mobile; rv:58.0) Gecko/58.0 Firefox/58.0''\<rparr>]"

definition get_random_platform :: "nat \<Rightarrow> platform" where
  "get_random_platform rnd = all_platforms ! (rnd mod length all_platforms)"

text \<open>
  \<open>process_request\<close> changes the request in place; the model returns it.  The user
  agents are ASCII, so the header holds the same list as its bytes.
\<close>

definition process_request :: "nat \<Rightarrow> request \<Rightarrow> request" where
  "process_request rnd rq =
     (if meta_fake_platform (req_meta rq) \<noteq> None then
        (let fake_platform = get_random_platform rnd;
             fake_os = platform_os fake_platform;
             fake_ua = platform_ua fake_platform
         in rq\<lparr>req_headers := (''user-agent'', fake_ua)
                               # filter (\<lambda>h. fst h \<noteq> ''user-agent'') (req_headers rq),
                req_meta := (req_meta rq)\<lparr>meta_os := Some fake_os\<rparr>\<rparr>)
      else rq)"

section \<open>spider.py\<close>

definition form_page_url :: pystr where
  "form_page_url = lit ''https://panda.belvo.io/?trial_key=A3F3D333452DF83D32A387F3FC3-GUBA''"

definition voting_url :: pystr where
  "voting_url = lit ''https://panda.belvo.io/ursidaecarinove_eating_bambu_must_die''"

text \<open>
  \<open>__init__\<close>: the keyword arguments become attributes of the spider, and
  \<open>self.final_decision\<close> is read when the groups are built; it is an
  \<open>AttributeError\<close> when the argument was not given.
\<close>

definition groups :: "pystr \<Rightarrow> group list" where
  "groups final_decision =
     [\<lparr>name = lit ''bearfoot_bearitone'', vote = lit ''0''\<rparr>,
      \<lparr>name = lit ''bearium_bearon'', vote = lit ''0''\<rparr>,
      \<lparr>name = lit ''stupandas_bamboozle'', vote = lit ''1''\<rparr>,
      \<lparr>name = lit ''bearing_embearass_goosebeary'', vote = lit ''1''\<rparr>,
      \<lparr>name = lit ''beary_pawsitively_forbearance'', vote = final_decision\<rparr>]"

definition init :: "(string \<rightharpoonup> pystr) \<Rightarrow> exn + group list" where
  "init kwargs =
     (case kwargs ''final_decision'' of
        None \<Rightarrow> Inl (AttributeError ''final_decision'')
      | Some final_decision \<Rightarrow> Inr (groups final_decision))"

definition send_group_to_vote :: "group \<Rightarrow> request" where
  "send_group_to_vote g =
     \<lparr>req_url = form_page_url, req_method = ''GET'', req_headers = [], req_cookies = [],
      req_formdata = None,
      req_meta = no_meta\<lparr>meta_fake_platform := Some True, meta_group := Some g\<rparr>,
      req_callback = Parse, req_errback = None, req_dont_filter = True\<rparr>"


text \<open>
  The callbacks are generators; each yields one request, or raises.  The first
  statement of each logs \<open>response.meta["group"]\<close>, so a missing group is the
  first \<open>KeyError\<close>.
\<close>

definition parse :: "response \<Rightarrow> exn + request list" where
  "parse response =
     (case meta_group (resp_meta response) of
        None \<Rightarrow> Inl (KeyError (lit ''group''))
      | Some g \<Rightarrow>
     (case get_session_cookies (resp_headers response) of
        Inl e \<Rightarrow> Inl e
      | Inr (key, val) \<Rightarrow>
     (case get_carnivore_value response of
        Inl e \<Rightarrow> Inl e
      | Inr carnivore_value \<Rightarrow>
          (let hastorni_js_file_url = resp_urljoin response (lit ''/hastorni.js'')
           in case meta_os (resp_meta response) of
                None \<Rightarrow> Inl (KeyError (lit ''os''))
              | Some os \<Rightarrow>
                  Inr [\<lparr>req_url = hastorni_js_file_url, req_method = ''GET'',
                        req_headers = req_headers (resp_request response),
                        req_cookies = [(key, val)], req_formdata = None,
                        req_meta = no_meta\<lparr>meta_carnivore_value := Some carnivore_value,
                                            meta_group := Some g, meta_os := Some os\<rparr>,
                        req_callback = ParseHastorniJsFile, req_errback = None,
                        req_dont_filter = True\<rparr>]))))"

definition parse_hastorni_js_file :: "response \<Rightarrow> exn + request list" where
  "parse_hastorni_js_file response =
     (case meta_group (resp_meta response) of
        None \<Rightarrow> Inl (KeyError (lit ''group''))
      | Some g \<Rightarrow>
     (case get_ursidae_name (resp_text response) of
        Inl e \<Rightarrow> Inl e
      | Inr ursidae_name \<Rightarrow>
     (case get_daxiongmao_file_url response ursidae_name of
        Inl e \<Rightarrow> Inl e
      | Inr daxiongmao_file_url \<Rightarrow>
     (case get_rats_hash response of
        Inl e \<Rightarrow> Inl e
      | Inr rats_hash \<Rightarrow>
          Inr [\<lparr>req_url = daxiongmao_file_url, req_method = ''GET'',
                req_headers = req_headers (resp_request response),
                req_cookies = req_cookies (resp_request response), req_formdata = None,
                req_meta = no_meta\<lparr>meta_group := Some g, meta_rats_hash := Some rats_hash\<rparr>,
                req_callback = ParseDaxiongmaoJsFile, req_errback = None,
                req_dont_filter = False\<rparr>]))))"

definition parse_daxiongmao_js_file :: "response \<Rightarrow> exn + request list" where
  "parse_daxiongmao_js_file response =
     (case meta_group (resp_meta response) of
        None \<Rightarrow> Inl (KeyError (lit ''group''))
      | Some g \<Rightarrow>
     (case get_rogue_racoons_hash (resp_text response) of
        Inl e \<Rightarrow> Inl e
      | Inr rogue_racoons \<Rightarrow>
     (case get_session_cookies (resp_headers response) of
        Inl e \<Rightarrow> Inl e
      | Inr (key, val) \<Rightarrow>
          (let group_name = name g;
               group_vote = vote g
           in case meta_rats_hash (resp_meta response) of
                None \<Rightarrow> Inl (KeyError (lit ''rats_hash''))
              | Some rats_hash \<Rightarrow>
                  (let form_data = [(lit ''rogue_racoons'', rogue_racoons),
                                    (lit ''username'', group_name),
                                    (lit ''survive'', group_vote),
                                    (lit ''rats'', rats_hash)]
                   in Inr [\<lparr>req_url = voting_url, req_method = ''POST'',
                            req_headers = req_headers (resp_request response),
                            req_cookies = [(key, val)], req_formdata = Some form_data,
                            req_meta = no_meta\<lparr>meta_group := Some g\<rparr>,
                            req_callback = ParseVotingResult,
                            req_errback = Some HandleVoteFailure,
                            req_dont_filter = False\<rparr>])))))"

text \<open>
  \<open>parse_voting_result\<close> writes the election result to a file named after the
  current time.  The state is the list of files written, each with its name and the
  value whose \<open>json.dumps\<close> text it holds; \<open>now\<close> is the formatted time.
\<close>

type_synonym files = "(pystr \<times> json) list"

definition write_output_to_file :: "pystr \<Rightarrow> json \<Rightarrow> files \<Rightarrow> files" where
  "write_output_to_file now election_result fs =
     fs @ [(lit ''results/election-result-'' @ now @ lit ''.json'', election_result)]"

definition parse_voting_result :: "pystr \<Rightarrow> files \<Rightarrow> response \<Rightarrow> exn + files" where
  "parse_voting_result now fs response =
     (let has_vote_suceeded_msg = str_contains (lit ''Thank you bea'') (resp_text response);
          has_election_result_msg = str_contains (lit ''pandas_future'') (resp_text response);
          has_valid_response = (has_vote_suceeded_msg \<or> has_election_result_msg)
      in if \<not> has_valid_response
         then Inl (ValueErrorText ''Response page not expected: '' (resp_text response))
         else if has_election_result_msg then
           (case json_loads (resp_text response) of
              None \<Rightarrow> Inl (ValueErrorCause ''Could not read election result: '' JSONDecodeError)
            | Some election_result \<Rightarrow> Inr (write_output_to_file now election_result fs))
         else Inr fs)"


subsection \<open>How the engine calls the spider\<close>



section \<open>Terms of the properties\<close>

text \<open>
  \<open>letter_code kvs c\<close> is the integer the letter map gives to the character \<open>c\<close>.
  \<open>ab_response\<close> is a script with the letter map \<open>{A: 5, B: 7}\<close>, fetched for a
  group named \<open>AB\<close>.
\<close>

definition letter_code :: "(pystr \<times> json) list \<Rightarrow> nat \<Rightarrow> int" where
  "letter_code kvs c = (case dict_get kvs [c] of Some (JInt i) \<Rightarrow> i | _ \<Rightarrow> 0)"

definition ab_response :: response where
  "ab_response =
     \<lparr>resp_text = lit ''var kretzoi = {\"A\": 5, \"B\": 7};'', resp_headers = [], resp_dom = [],
      resp_request = (send_group_to_vote \<lparr>name = lit ''AB'', vote = lit ''1''\<rparr>),
      resp_urljoin = (\<lambda>u. lit ''https://panda.belvo.io'' @ u)\<rparr>"

text \<open>
  \<open>code_list nm\<close> is the text of the list of the code points of the string \<open>nm\<close>, as a
  script writes it: the decimal numbers between brackets, with commas between them.
\<close>

definition code_list :: "nat list \<Rightarrow> pystr" where
  "code_list nm = 91 # join [44] (map digits nm) @ [93]"


text \<open>
  A transaction from end to end, for a group named \<open>bear\<close> whose vote is the
  text \<open>maybe\<close>: the form page with the token \<open>T1\<close>, the script with the codes of
  \<open>bear\<close> and the letter map \<open>{b: 1, e: 2, a: 3, r: 4}\<close>, and the payload with the
  value \<open>H1\<close>.  Each request is the one the callback before it yields.
  \<open>text_response t\<close> is an answer to the vote with the body \<open>t\<close>;
  \<open>no_element_response\<close> is a form page without the token's element;
  \<open>ac_response\<close> is the script of \<open>ab_response\<close> fetched for a group named \<open>AC\<close>.
\<close>

definition ex_urljoin :: "pystr \<Rightarrow> pystr" where
  "ex_urljoin u = lit ''https://panda.belvo.io'' @ u"

definition ex_group :: group where
  "ex_group = \<lparr>name = lit ''bear'', vote = lit ''maybe''\<rparr>"

definition ex_rq1 :: request where
  "ex_rq1 = process_request 0 (send_group_to_vote ex_group)"

definition ex_r1 :: response where
  "ex_r1 =
     \<lparr>resp_text = lit ''<div id=\"carnivoreatingbambu\"><input value=\"T1\"></div>'',
      resp_headers = [(''set-cookie'', lit ''session=XYZ; Path=/; HttpOnly'')],
      resp_dom = [Element (lit ''div'') [(lit ''id'', lit ''carnivoreatingbambu'')]
                    [Element (lit ''input'') [(lit ''value'', lit ''T1'')] []]],
      resp_request = ex_rq1, resp_urljoin = ex_urljoin\<rparr>"

definition ex_rq2 :: request where
  "ex_rq2 = (case parse ex_r1 of Inr [rq] \<Rightarrow> rq | _ \<Rightarrow> ex_rq1)"

definition ex_r2 :: response where
  "ex_r2 =
     \<lparr>resp_text = lit ''var ursidae = [98,101,97,114]; var kretzoi = {\"b\":1,\"e\":2,\"a\":3,\"r\":4};'',
      resp_headers = [], resp_dom = [], resp_request = ex_rq2, resp_urljoin = ex_urljoin\<rparr>"

definition ex_rq3 :: request where
  "ex_rq3 = (case parse_hastorni_js_file ex_r2 of Inr [rq] \<Rightarrow> rq | _ \<Rightarrow> ex_rq1)"

definition ex_r3 :: response where
  "ex_r3 =
     \<lparr>resp_text = lit ''<input name=\"rogue_racoons\" value=\"H1\">'',
      resp_headers = [(''set-cookie'', lit ''session=NEW; Path=/'')],
      resp_dom = [], resp_request = ex_rq3, resp_urljoin = ex_urljoin\<rparr>"

definition ex_rq4 :: request where
  "ex_rq4 = (case parse_daxiongmao_js_file ex_r3 of Inr [rq] \<Rightarrow> rq | _ \<Rightarrow> ex_rq1)"


definition text_response :: "pystr \<Rightarrow> response" where
  "text_response t =
     \<lparr>resp_text = t, resp_headers = [], resp_dom = [],
      resp_request = ex_rq1\<lparr>req_callback := ParseVotingResult\<rparr>, resp_urljoin = ex_urljoin\<rparr>"

definition no_element_response :: response where
  "no_element_response =
     \<lparr>resp_text = lit ''<html><body><p>closed</p></body></html>'',
      resp_headers = [(''set-cookie'', lit ''session=XYZ; Path=/; HttpOnly'')],
      resp_dom = [Element (lit ''html'') [] [Element (lit ''body'') [] [Element (lit ''p'') [] []]]],
      resp_request = ex_rq1, resp_urljoin = ex_urljoin\<rparr>"


section \<open>Evaluation on literals\<close>

lemma lit_Nil: "lit [] = []"
  by (simp add: lit_def)

lemma lit_Cons: "lit (c # cs) = of_char c # lit cs"
  by (simp add: lit_def)

lemmas json_simps =
  startswith_def skip_ws_def is_ws_def parse_value.simps parse_elements.simps
  parse_members.simps scan_number_def is_digit_def fraction_of_def exponent_of_def
  int_of_digits_def cons_chunk_def Let_def

section \<open>The parser consumes its input\<close>

text \<open>
  Every value, every list of elements and every list of members that is read leaves
  less text than there was.  Hence the comparisons of lengths in \<open>parse_elements\<close> and
  \<open>parse_members\<close> never fail, and the two functions satisfy the equations of the loops
  without them.
\<close>

lemma skip_ws_Cons_length: "skip_ws r = d # rd \<Longrightarrow> length rd < length r"
  using skip_ws_length[of r] by simp

lemma parse_shorter_all:
  "(\<forall>v r. parse_value s = Some (v, r) \<longrightarrow> length r < length s)"
  "(\<forall>vs r. parse_elements s1 = Some (vs, r) \<longrightarrow> length r < length s1)"
  "(\<forall>kvs r. parse_members s2 = Some (kvs, r) \<longrightarrow> length r < length s2)"
proof (induction s and s1 and s2 rule: parse_value_parse_elements_parse_members.induct)
  case (1 s)
  show ?case
  proof (intro allI impI)
    fix v r assume a: "parse_value s = Some (v, r)"
    show "length r < length s"
    proof (cases s)
      case Nil
      with a show ?thesis by (simp add: parse_value.simps)
    next
      case (Cons c cs)
      consider (str) "c = 34" | (obj) "c \<noteq> 34" "c = 123" | (arr) "c \<noteq> 34" "c \<noteq> 123" "c = 91"
        | (other) "c \<noteq> 34" "c \<noteq> 123" "c \<noteq> 91" by blast
      then show ?thesis
      proof cases
        case str
        with a Cons show ?thesis
          by (auto simp: parse_value.simps split: option.splits dest: scan_string_shorter)
      next
        case obj
        show ?thesis
        proof (cases "skip_ws cs")
          case Nil
          with a Cons obj show ?thesis by (simp add: parse_value.simps)
        next
          case (Cons d rd)
          note sk = this
          have l: "length rd < length cs" using sk by (rule skip_ws_Cons_length)
          show ?thesis
          proof (cases "d = 125")
            case True
            with a \<open>s = c # cs\<close> obj sk l show ?thesis by (simp add: parse_value.simps)
          next
            case False
            with a \<open>s = c # cs\<close> obj sk obtain kvs where
              "parse_members (d # rd) = Some (kvs, r)"
              by (auto simp: parse_value.simps split: option.splits)
            with "1.IH"(1)[OF \<open>s = c # cs\<close> _ obj(2) sk False] obj
            have "length r < length (d # rd)" by simp
            with l \<open>s = c # cs\<close> show ?thesis by simp
          qed
        qed
      next
        case arr
        show ?thesis
        proof (cases "skip_ws cs")
          case Nil
          with a Cons arr show ?thesis by (simp add: parse_value.simps)
        next
          case (Cons d rd)
          note sk = this
          have l: "length rd < length cs" using sk by (rule skip_ws_Cons_length)
          show ?thesis
          proof (cases "d = 93")
            case True
            with a \<open>s = c # cs\<close> arr sk l show ?thesis by (simp add: parse_value.simps)
          next
            case False
            with a \<open>s = c # cs\<close> arr sk obtain vs where
              "parse_elements (d # rd) = Some (vs, r)"
              by (auto simp: parse_value.simps split: option.splits)
            with "1.IH"(2)[OF \<open>s = c # cs\<close> _ arr(2) arr(3) sk False] arr
            have "length r < length (d # rd)" by simp
            with l \<open>s = c # cs\<close> show ?thesis by simp
          qed
        qed
      next
        case other
        with a Cons show ?thesis
          by (auto simp: parse_value.simps split: if_splits option.splits dest: scan_number_shorter)
      qed
    qed
  qed
next
  case (2 s)
  show ?case
  proof (intro allI impI)
    fix vs r assume a: "parse_elements s = Some (vs, r)"
    then obtain v r0 where pv: "parse_value s = Some (v, r0)"
      by (subst (asm) parse_elements.simps) (auto split: option.splits)
    with "2.IH"(1) have l0: "length r0 < length s" by simp
    from a pv obtain d rd where sk: "skip_ws r0 = d # rd"
      by (subst (asm) parse_elements.simps) (auto split: list.splits)
    then have l1: "length rd < length r0" by (rule skip_ws_Cons_length)
    show "length r < length s"
    proof (cases "d = 93")
      case True
      with a pv sk have "r = rd"
        by (subst (asm) parse_elements.simps) simp
      with l0 l1 show ?thesis by simp
    next
      case False
      with a pv sk have g: "d = 44 \<and> length rd < length s"
        by (subst (asm) parse_elements.simps) (auto split: if_splits)
      with a pv sk False obtain vs' where pe: "parse_elements (skip_ws rd) = Some (vs', r)"
        by (subst (asm) parse_elements.simps) (auto split: option.splits)
      from "2.IH"(2)[OF pv refl sk False g] pe
      have "length r < length (skip_ws rd)" by simp
      with skip_ws_length[of rd] l0 l1 show ?thesis by simp
    qed
  qed
next
  case (3 s)
  show ?case
  proof (intro allI impI)
    fix kvs r assume a: "parse_members s = Some (kvs, r)"
    then obtain q cs where s: "s = q # cs" and q: "\<not> q \<noteq> 34"
      by (subst (asm) parse_members.simps) (auto split: list.splits if_splits)
    from a s q obtain key r1 where ss: "scan_string cs = Some (key, r1)"
      by (subst (asm) parse_members.simps) (auto split: option.splits)
    from a s q ss obtain col r2 where sk1: "skip_ws r1 = col # r2" and col: "\<not> col \<noteq> 58"
      by (subst (asm) parse_members.simps) (auto split: list.splits if_splits)
    from a s q ss sk1 col obtain v r3 where pv: "parse_value (skip_ws r2) = Some (v, r3)"
      by (subst (asm) parse_members.simps) (auto split: option.splits)
    from a s q ss sk1 col pv obtain d r4 where sk3: "skip_ws r3 = d # r4"
      by (subst (asm) parse_members.simps) (auto split: list.splits)
    have l1: "length r1 < length cs" using ss by (rule scan_string_shorter)
    have l2: "length r2 < length r1" using sk1 by (rule skip_ws_Cons_length)
    from "3.IH"(1)[OF s q ss refl sk1 col] pv
    have l3: "length r3 < length (skip_ws r2)" by simp
    have l4: "length r4 < length r3" using sk3 by (rule skip_ws_Cons_length)
    have l: "length r4 < length s"
      using l1 l2 l3 l4 skip_ws_length[of r2] s by simp
    show "length r < length s"
    proof (cases "d = 125")
      case True
      with a s q ss sk1 col pv sk3 have "r = r4"
        by (subst (asm) parse_members.simps) simp
      with l show ?thesis by simp
    next
      case False
      with a s q ss sk1 col pv sk3 have g: "d = 44 \<and> length r4 < length s"
        by (subst (asm) parse_members.simps) (auto split: if_splits)
      with a s q ss sk1 col pv sk3 False obtain kvs' where
        pm: "parse_members (skip_ws r4) = Some (kvs', r)"
        by (subst (asm) parse_members.simps) (auto split: option.splits)
      from "3.IH"(2)[OF s q ss refl sk1 col pv refl sk3 False g] pm
      have "length r < length (skip_ws r4)" by simp
      with skip_ws_length[of r4] l show ?thesis by simp
    qed
  qed
qed


lemma parse_value_shorter: "parse_value s = Some (v, r) \<Longrightarrow> length r < length s"
  using parse_shorter_all(1) by blast

lemma parse_elements_unguarded:
  "parse_elements s =
     (case parse_value s of
        None \<Rightarrow> None
      | Some (v, r) \<Rightarrow>
          (case skip_ws r of
             [] \<Rightarrow> None
           | d # rd \<Rightarrow>
               (if d = 93 then Some ([v], rd)
                else if d = 44 then
                  (case parse_elements (skip_ws rd) of
                     None \<Rightarrow> None
                   | Some (vs, rr) \<Rightarrow> Some (v # vs, rr))
                else None)))"
proof (cases "parse_value s")
  case None
  then show ?thesis by (subst parse_elements.simps) simp
next
  case (Some p)
  obtain v r where p: "p = (v, r)" by (cases p)
  with Some have l: "length r < length s" using parse_value_shorter by simp
  show ?thesis
  proof (cases "skip_ws r")
    case Nil
    with Some p show ?thesis by (subst parse_elements.simps) simp
  next
    case (Cons d rd)
    then have "length rd < length r" by (rule skip_ws_Cons_length)
    with l have "length rd < length s" by simp
    with Some p Cons show ?thesis by (subst parse_elements.simps) simp
  qed
qed

lemma parse_members_unguarded:
  "parse_members s =
     (case s of
        [] \<Rightarrow> None
      | q # cs \<Rightarrow>
          (if q \<noteq> 34 then None
           else
             (case scan_string cs of
                None \<Rightarrow> None
              | Some (key, r1) \<Rightarrow>
                  (case skip_ws r1 of
                     [] \<Rightarrow> None
                   | col # r2 \<Rightarrow>
                       (if col \<noteq> 58 then None
                        else
                          (case parse_value (skip_ws r2) of
                             None \<Rightarrow> None
                           | Some (v, r3) \<Rightarrow>
                               (case skip_ws r3 of
                                  [] \<Rightarrow> None
                                | d # r4 \<Rightarrow>
                                    (if d = 125 then Some ([(key, v)], r4)
                                     else if d = 44 then
                                       (case parse_members (skip_ws r4) of
                                          None \<Rightarrow> None
                                        | Some (kvs, r5) \<Rightarrow> Some ((key, v) # kvs, r5))
                                     else None))))))))"
proof -
  have g: "length r4 < length (q # cs)"
    if "scan_string cs = Some (key, r1)" "skip_ws r1 = col # r2"
      "parse_value (skip_ws r2) = Some (v, r3)" "skip_ws r3 = d # r4"
    for q cs key r1 col r2 v r3 d r4
  proof -
    have "length r1 < length cs" using that(1) by (rule scan_string_shorter)
    moreover have "length r2 < length r1" using that(2) by (rule skip_ws_Cons_length)
    moreover have "length r3 < length (skip_ws r2)" using that(3) by (rule parse_value_shorter)
    moreover have "length r4 < length r3" using that(4) by (rule skip_ws_Cons_length)
    ultimately show ?thesis using skip_ws_length[of r2] by simp
  qed
  show ?thesis
  proof (cases s)
    case Nil
    then show ?thesis by (subst parse_members.simps) simp
  next
    case (Cons q cs)
    note s = this
    show ?thesis
    proof (cases "scan_string cs")
      case None
      with s show ?thesis by (subst parse_members.simps) simp
    next
      case (Some p1)
      obtain key r1 where p1: "p1 = (key, r1)" by (cases p1)
      note ss = Some[unfolded p1]
      show ?thesis
      proof (cases "skip_ws r1")
        case Nil
        with s ss show ?thesis by (subst parse_members.simps) simp
      next
        case (Cons col r2)
        note sk1 = this
        show ?thesis
        proof (cases "parse_value (skip_ws r2)")
          case None
          with s ss sk1 show ?thesis by (subst parse_members.simps) simp
        next
          case (Some p3)
          obtain v r3 where p3: "p3 = (v, r3)" by (cases p3)
          note pv = Some[unfolded p3]
          show ?thesis
          proof (cases "skip_ws r3")
            case Nil
            with s ss sk1 pv show ?thesis by (subst parse_members.simps) simp
          next
            case (Cons d r4)
            have "length r4 < length (q # cs)"
              using ss sk1 pv Cons by (rule g)
            with s ss sk1 pv Cons show ?thesis by (subst parse_members.simps) simp
          qed
        qed
      qed
    qed
  qed
qed

section \<open>Encodings\<close>

lemma decode_utf8_ascii: "\<forall>b\<in>set bs. b < 128 \<Longrightarrow> decode_utf8 bs = Inr bs"
  by (induction bs) simp_all

lemma encode_utf8_ascii: "\<forall>c\<in>set s. c < 128 \<Longrightarrow> encode_utf8 s = Inr s"
  by (induction s) (simp_all add: utf8_char_def)

lemma b64_char_ascii: "b64_char i < 128"
  unfolding b64_char_def by auto

lemma b64encode_ascii: "\<forall>c\<in>set (b64encode bs). c < 128"
  by (induction bs rule: b64encode.induct) (simp_all add: b64_char_ascii)

lemma b64_index_char: "i < 64 \<Longrightarrow> b64_index (b64_char i) = Some i"
  unfolding b64_index_def b64_char_def by (simp split: if_splits) arith

lemma b64_char_not_pad: "b64_char i \<noteq> 61"
  unfolding b64_char_def by (simp split: if_splits) arith

lemma b64encode_Nil_iff: "b64encode bs = [] \<longleftrightarrow> bs = []"
  by (cases bs rule: b64encode.cases) simp_all

lemma sextets:
  fixes a b c :: nat
  assumes "a < 256" "b < 256" "c < 256"
  shows "a div 4 < 64" "(a mod 4) * 16 + b div 16 < 64" "(b mod 16) * 4 + c div 64 < 64" "c mod 64 < 64"
    "(a mod 4) * 16 < 64" "(b mod 16) * 4 < 64"
  using assms by simp_all

lemma regroup:
  fixes a b c :: nat
  assumes "b < 256" "c < 256"
  shows "(a div 4) * 4 + ((a mod 4) * 16 + b div 16) div 16 = a"
    "(((a mod 4) * 16 + b div 16) mod 16) * 16 + ((b mod 16) * 4 + c div 64) div 4 = b"
    "(((b mod 16) * 4 + c div 64) mod 4) * 64 + c mod 64 = c"
  using assms by simp_all

lemma b64decode_b64encode: "\<forall>b\<in>set bs. b < 256 \<Longrightarrow> b64decode (b64encode bs) = Some bs"
proof (induction bs rule: b64encode.induct)
  case 1
  then show ?case by simp
next
  case (2 a)
  then show ?case
    by (simp add: b64_index_char b64_char_not_pad sextets)
next
  case (3 a b)
  then have ab: "a < 256" "b < 256" by simp_all
  have k: "b mod 16 * 4 < 64" by simp
  show ?case using ab
    by (simp add: b64_index_char b64_char_not_pad sextets regroup k)
next
  case (4 a b c rest)
  then have abc: "a < 256" "b < 256" "c < 256" and IH: "b64decode (b64encode rest) = Some rest"
    by simp_all
  show ?case
  proof (cases rest)
    case Nil
    then show ?thesis using abc
      by (simp add: b64_index_char b64_char_not_pad sextets regroup)
  next
    case (Cons r rs)
    then obtain v vs where enc: "b64encode rest = v # vs"
      using b64encode_Nil_iff[of rest] by (cases "b64encode rest") auto
    show ?thesis using abc IH enc
      by (simp add: b64_index_char sextets regroup)
  qed
qed

section \<open>The group hash\<close>

lemma digits_range: "\<forall>c\<in>set (digits n). 48 \<le> c \<and> c \<le> 57"
proof (induction n rule: digits.induct)
  case (1 n)
  show ?case
  proof (cases "n < 10")
    case True
    then show ?thesis by (subst digits.simps) simp
  next
    case False
    have "n mod 10 < 10" by simp
    then have "48 + n mod 10 \<le> 57" by arith
    with False 1 show ?thesis by (subst digits.simps) auto
  qed
qed

lemma digits_ascii: "c \<in> set (digits n) \<Longrightarrow> c < 128"
  using digits_range[of n] by fastforce

lemma str_int_ascii: "\<forall>c\<in>set (str_int i). c < 128"
  by (auto simp: str_int_def dest: digits_ascii)

lemma join_ascii:
  "\<forall>x\<in>set xs. \<forall>c\<in>set x. c < 128 \<Longrightarrow> \<forall>c\<in>set sep. c < 128 \<Longrightarrow> \<forall>c\<in>set (join sep xs). c < 128"
  by (induction sep xs rule: join.induct) auto

lemma group_name_numbers_ints:
  "\<forall>c\<in>set nm. \<exists>i. dict_get kvs [c] = Some (JInt i) \<Longrightarrow>
   group_name_numbers (JObject kvs) (map (\<lambda>c. [c]) nm)
     = Inr (map (\<lambda>c. str_int (letter_code kvs c)) nm)"
  by (induction nm) (auto simp: letter_code_def)

text \<open>
  Claim C1.  When the script holds a letter map that gives an integer to every
  character of the group's name, \<open>get_rats_hash\<close> returns a base64 text; decoded,
  it is the decimal codes of the letters of the name, in the order of the name,
  joined by \<open>|\<close>.
\<close>

theorem rats_hash_decodes_to_pipe_joined_codes:
  assumes "get_letters_map (resp_text response) = Inr (JObject kvs)"
    and "meta_group (resp_meta response) = Some g"
    and "\<forall>c\<in>set (name g). \<exists>i. dict_get kvs [c] = Some (JInt i)"
  shows "\<exists>h bs. get_rats_hash response = Inr h \<and> b64decode h = Some bs
           \<and> decode_utf8 bs = Inr (join (lit ''|'') (map (\<lambda>c. str_int (letter_code kvs c)) (name g)))"
proof -
  let ?content = "join (lit ''|'') (map (\<lambda>c. str_int (letter_code kvs c)) (name g))"
  have ascii: "\<forall>c\<in>set ?content. c < 128"
    by (rule join_ascii) (auto simp: str_int_ascii lit_def)
  then have bytes: "\<forall>c\<in>set ?content. c < 256" by fastforce
  have enc: "encode_utf8 ?content = Inr ?content"
    using ascii by (rule encode_utf8_ascii)
  have dec: "decode_utf8 (b64encode ?content) = Inr (b64encode ?content)"
    using b64encode_ascii by (rule decode_utf8_ascii)
  have "get_rats_hash response = Inr (b64encode ?content)"
    using assms(1,2) group_name_numbers_ints[OF assms(3)] enc dec
    by (simp add: get_rats_hash_def Let_def)
  moreover have "b64decode (b64encode ?content) = Some ?content"
    using bytes by (rule b64decode_b64encode)
  moreover have "decode_utf8 ?content = Inr ?content"
    using ascii by (rule decode_utf8_ascii)
  ultimately show ?thesis by blast
qed

text \<open>The name \<open>AB\<close> with the map \<open>{A: 5, B: 7}\<close> decodes to \<open>5|7\<close>.\<close>

theorem rats_hash_decodes_to_pipe_joined_codes_witness:
  "\<exists>h bs. get_rats_hash ab_response = Inr h \<and> b64decode h = Some bs
     \<and> decode_utf8 bs = Inr (lit ''5|7'')"
proof -
  have "re_search (lit ''kretzoi = '') 59 (resp_text ab_response) = Some (lit ''{\"A\": 5, \"B\": 7}'')"
    by (simp add: ab_response_def re_search_def lit_Nil lit_Cons endswith_def)
  moreover have "json_loads (lit ''{\"A\": 5, \"B\": 7}'') = Some (JObject [([65], JInt 5), ([66], JInt 7)])"
    by (simp add: json_loads_def lit_Nil lit_Cons json_simps)
  ultimately have a: "get_letters_map (resp_text ab_response)
                        = Inr (JObject [([65], JInt 5), ([66], JInt 7)])"
    by (simp add: get_letters_map_def)
  have b: "meta_group (resp_meta ab_response) = Some \<lparr>name = lit ''AB'', vote = lit ''1''\<rparr>"
    by (simp add: ab_response_def resp_meta_def send_group_to_vote_def no_meta_def)
  have c: "\<forall>c\<in>set (name \<lparr>name = lit ''AB'', vote = lit ''1''\<rparr>).
             \<exists>i. dict_get [([65], JInt 5), ([66], JInt 7)] [c] = Some (JInt i)"
    by (simp add: lit_Nil lit_Cons dict_get_def)
  have d: "join (lit ''|'') (map (\<lambda>c. str_int (letter_code [([65], JInt 5), ([66], JInt 7)] c))
             (name \<lparr>name = lit ''AB'', vote = lit ''1''\<rparr>)) = lit ''5|7''"
    by (simp add: lit_Nil lit_Cons letter_code_def dict_get_def str_int_def digits.simps)
  from rats_hash_decodes_to_pipe_joined_codes[OF a b c] d show ?thesis by simp
qed




section \<open>The name in the script\<close>

subsection \<open>Decimal numbers are read back\<close>

lemma digits_is_digit: "c \<in> set (digits n) \<Longrightarrow> is_digit c"
  using digits_range[of n] by (simp add: is_digit_def)

lemma digits_not_Nil: "digits n \<noteq> []"
  by (subst digits.simps) simp

lemma hd_digits: "0 < n \<Longrightarrow> hd (digits n) \<noteq> 48"
proof (induction n rule: digits.induct)
  case (1 n)
  show ?case
  proof (cases "n < 10")
    case True
    with 1(2) show ?thesis by (subst digits.simps) simp
  next
    case False
    then have "0 < n div 10" by simp
    with 1(1) False have "hd (digits (n div 10)) \<noteq> 48" by simp
    with False show ?thesis
      by (subst digits.simps) (simp add: digits_not_Nil)
  qed
qed

lemma digits_0: "digits 0 = [48]"
  by (subst digits.simps) simp

lemma int_of_digits_snoc: "int_of_digits (ds @ [d]) = 10 * int_of_digits ds + (d - 48)"
  by (simp add: int_of_digits_def)

lemma int_of_digits_digits: "int_of_digits (digits n) = n"
proof (induction n rule: digits.induct)
  case (1 n)
  show ?case
  proof (cases "n < 10")
    case True
    then show ?thesis by (subst digits.simps) (simp add: int_of_digits_def)
  next
    case False
    with 1 have "int_of_digits (digits (n div 10)) = n div 10" by simp
    with False show ?thesis
      by (subst digits.simps) (simp add: int_of_digits_snoc)
  qed
qed

lemma takeWhile_digits: "\<not> is_digit t \<Longrightarrow> takeWhile is_digit (digits n @ t # ts) = digits n"
  by (simp add: takeWhile_append2 digits_is_digit)

lemma takeWhile_tl_digits:
  "\<not> is_digit t \<Longrightarrow> digits n = d # ds \<Longrightarrow> takeWhile is_digit (ds @ t # ts) = ds"
proof -
  assume t: "\<not> is_digit t" and d: "digits n = d # ds"
  have "\<forall>c\<in>set ds. is_digit c"
    using digits_is_digit[of _ n] d by simp
  with t show ?thesis by (simp add: takeWhile_append2)
qed

lemma scan_number_digits:
  assumes "t = 44 \<or> t = 93"
  shows "scan_number (digits n @ t # ts) = Some (JInt (int n), t # ts)"
proof -
  obtain d ds where d: "digits n = d # ds"
    using digits_not_Nil[of n] by (cases "digits n") auto
  have dd: "is_digit d" using digits_is_digit[of d n] d by simp
  then have d45: "d \<noteq> 45" by (auto simp: is_digit_def)
  have t: "\<not> is_digit t" using assms by (auto simp: is_digit_def)
  have ip: "(if d = 48 then [d] else d # takeWhile is_digit (ds @ t # ts)) = d # ds"
  proof (cases "n = 0")
    case True
    with d show ?thesis by (simp add: digits_0)
  next
    case False
    then have "hd (digits n) \<noteq> 48" using hd_digits by simp
    with d have "d \<noteq> 48" by simp
    then show ?thesis using takeWhile_tl_digits[OF t d] by simp
  qed
  have fr: "fraction_of (t # ts) = []" using assms by (auto simp: fraction_of_def)
  have ex: "exponent_of (t # ts) = []" using assms by (auto simp: exponent_of_def)
  have val: "int_of_digits (d # ds) = n" using int_of_digits_digits[of n] d by simp
  show ?thesis
    unfolding scan_number_def d
    using d45 dd by (simp add: ip fr ex val Let_def)
qed

lemma skip_ws_Cons: "\<not> is_ws c \<Longrightarrow> skip_ws (c # cs) = c # cs"
  by (simp add: skip_ws_def)

lemma digit_not_ws: "is_digit c \<Longrightarrow> \<not> is_ws c"
  by (auto simp: is_digit_def is_ws_def)

lemma parse_value_digits:
  assumes "t = 44 \<or> t = 93"
  shows "parse_value (digits n @ t # ts) = Some (JInt (int n), t # ts)"
proof -
  obtain d ds where d: "digits n = d # ds"
    using digits_not_Nil[of n] by (cases "digits n") auto
  have dd: "48 \<le> d \<and> d \<le> 57" using digits_range[of n] d by simp
  have no_word: "\<not> startswith (d # ds @ t # ts) (lit ''null'')"
    "\<not> startswith (d # ds @ t # ts) (lit ''true'')"
    "\<not> startswith (d # ds @ t # ts) (lit ''false'')"
    using dd by (auto simp: startswith_def lit_Nil lit_Cons)
  have "parse_value (d # ds @ t # ts) = Some (JInt (int n), t # ts)"
    using dd no_word scan_number_digits[OF assms, of n ts] d
    by (subst parse_value.simps) auto
  with d show ?thesis by simp
qed

lemma join_Cons2: "xs \<noteq> [] \<Longrightarrow> join sep (x # xs) = x @ sep @ join sep xs"
  by (cases xs) simp_all

lemma hd_join_digits:
  "nm \<noteq> [] \<Longrightarrow> \<exists>d r. join [44] (map digits nm) @ rest = d # r \<and> is_digit d"
proof -
  assume "nm \<noteq> []"
  then obtain n ns where nm: "nm = n # ns" by (cases nm) auto
  obtain d ds where d: "digits n = d # ds"
    using digits_not_Nil[of n] by (cases "digits n") auto
  have "is_digit d" using digits_is_digit[of d n] d by simp
  with nm d show ?thesis by (cases ns) auto
qed

lemma parse_elements_codes:
  "nm \<noteq> [] \<Longrightarrow>
   parse_elements (join [44] (map digits nm) @ 93 # rest) = Some (map (\<lambda>c. JInt (int c)) nm, rest)"
proof (induction nm rule: list_nonempty_induct)
  case (single n)
  have "\<not> is_ws 93" by (simp add: is_ws_def)
  then show ?case
    by (subst parse_elements.simps) (simp add: parse_value_digits skip_ws_Cons)
next
  case (cons n ns)
  let ?tail = "join [44] (map digits ns) @ 93 # rest"
  have j: "join [44] (map digits (n # ns)) @ 93 # rest = digits n @ 44 # ?tail"
    using cons.hyps by (simp add: join_Cons2)
  have pv: "parse_value (digits n @ 44 # ?tail) = Some (JInt (int n), 44 # ?tail)"
    by (rule parse_value_digits) simp
  have ws: "\<not> is_ws 44" by (simp add: is_ws_def)
  obtain d r where dr: "?tail = d # r" "is_digit d"
    using hd_join_digits[OF cons.hyps, of "93 # rest"] by auto
  then have sk: "skip_ws ?tail = ?tail"
    by (simp add: skip_ws_Cons digit_not_ws)
  show ?case
    unfolding j
    by (subst parse_elements.simps) (simp add: pv skip_ws_Cons ws sk cons.IH)
qed

lemma json_loads_code_list:
  "json_loads (code_list nm) = Some (JArray (map (\<lambda>c. JInt (int c)) nm))"
proof (cases "nm = []")
  case True
  have "\<not> is_ws 91" "\<not> is_ws 93" by (simp_all add: is_ws_def)
  then show ?thesis using True
    by (simp add: json_loads_def code_list_def startswith_def skip_ws_Cons parse_value.simps
        skip_ws_def)
next
  case False
  obtain d r where dr: "join [44] (map digits nm) @ [93] = d # r" "is_digit d"
    using hd_join_digits[OF False, of "[93]"] by auto
  then have d93: "d \<noteq> 93" by (auto simp: is_digit_def)
  have ws: "\<not> is_ws 91" by (simp add: is_ws_def)
  have sk: "skip_ws (d # r) = d # r"
    using dr(2) by (simp add: skip_ws_Cons digit_not_ws)
  have pe: "parse_elements (d # r) = Some (map (\<lambda>c. JInt (int c)) nm, [])"
    using parse_elements_codes[OF False, of "[]"] dr by simp
  have "parse_value (91 # join [44] (map digits nm) @ [93])
          = Some (JArray (map (\<lambda>c. JInt (int c)) nm), [])"
    by (subst parse_value.simps) (simp add: sk dr pe d93)
  then show ?thesis
    by (simp add: json_loads_def code_list_def startswith_def skip_ws_Cons ws skip_ws_def)
qed

subsection \<open>Code points\<close>

lemma join_chr_codes:
  "\<forall>c\<in>set nm. c < 0x110000 \<Longrightarrow> join_chr (map (\<lambda>c. JInt (int c)) nm) = Inr nm"
  by (induction nm) simp_all

lemma convert_code_points:
  "\<forall>c\<in>set nm. c < 0x110000 \<Longrightarrow>
   convert_char_codes_to_str (JArray (map (\<lambda>c. JInt (int c)) nm)) = Inr nm"
  by (simp add: convert_char_codes_to_str_def join_chr_codes)

subsection \<open>The search for the assignment\<close>

lemma dot_star_lazy_until:
  "t \<notin> set body \<Longrightarrow> 10 \<notin> set body \<Longrightarrow> dot_star_lazy t (body @ t # post) = Some body"
  by (induction body) auto

lemma set_join: "set (join sep xs) \<subseteq> set sep \<union> \<Union>(set ` set xs)"
  by (induction sep xs rule: join.induct) auto

lemma code_list_chars: "c \<in> set (code_list nm) \<Longrightarrow> c = 91 \<or> c = 93 \<or> c = 44 \<or> is_digit c"
proof -
  assume "c \<in> set (code_list nm)"
  then have "c = 91 \<or> c = 93 \<or> c \<in> set (join [44] (map digits nm))"
    by (auto simp: code_list_def)
  moreover have "set (join [44] (map digits nm)) \<subseteq> set [44] \<union> \<Union>(set ` set (map digits nm))"
    by (rule set_join)
  ultimately show ?thesis
    by (auto dest: digits_is_digit)
qed

lemma code_list_one_line: "59 \<notin> set (code_list nm)" "10 \<notin> set (code_list nm)"
  using code_list_chars[of 59 nm] code_list_chars[of 10 nm] by (auto simp: is_digit_def)

lemma str_contains_append: "str_contains P (a @ P @ b)"
proof (induction a)
  case Nil
  show ?case
  proof (cases "P @ b")
    case Nil
    then show ?thesis by simp
  next
    case (Cons c cs)
    have "startswith (P @ b) P" by (simp add: startswith_def)
    with Cons show ?thesis by simp
  qed
next
  case (Cons x a)
  then show ?case by simp
qed

lemma endswith_contains: "endswith (take k s) P \<Longrightarrow> str_contains P s"
proof -
  assume e: "endswith (take k s) P"
  let ?a = "take (length (take k s) - length P) (take k s)"
  from e have "take k s = ?a @ P"
    by (metis append_take_drop_id endswith_def)
  then have "s = ?a @ P @ drop k s"
    by (metis append.assoc append_take_drop_id)
  then show ?thesis
    using str_contains_append[of P ?a "drop k s"] by simp
qed

lemma no_border:
  assumes "0 < j" "j < 10"
  shows "drop (10 - j) (lit ''ursidae = '') \<noteq> take j (lit ''ursidae = '')"
proof -
  from assms have "j = 1 \<or> j = 2 \<or> j = 3 \<or> j = 4 \<or> j = 5 \<or> j = 6 \<or> j = 7 \<or> j = 8 \<or> j = 9"
    by arith
  then show ?thesis
    by (auto simp: lit_Nil lit_Cons)
qed

lemma no_early_match:
  assumes "\<not> str_contains (lit ''ursidae = '') pre"
    and "k < length (pre @ lit ''ursidae = '')"
  shows "\<not> endswith (take k (pre @ lit ''ursidae = '')) (lit ''ursidae = '')"
proof
  let ?P = "lit ''ursidae = ''"
  have len: "length ?P = 10" by (simp add: lit_def)
  assume e: "endswith (take k (pre @ ?P)) ?P"
  show False
  proof (cases "k \<le> length pre")
    case True
    then have "take k (pre @ ?P) = take k pre" by simp
    with e assms(1) show False using endswith_contains by metis
  next
    case False
    define j where "j = k - length pre"
    from False assms(2) have j: "0 < j" "j < 10" "k = length pre + j"
      by (simp_all add: j_def len)
    have tk: "take k (pre @ ?P) = pre @ take j ?P"
      using j by simp
    from e have d: "drop (length pre + j - 10) (pre @ take j ?P) = ?P"
      using j len by (simp add: endswith_def tk min_def)
    have "drop (10 - j) ?P = drop (10 - j) (drop (length pre + j - 10) (pre @ take j ?P))"
      using d by simp
    also have "\<dots> = drop (length pre) (pre @ take j ?P)"
    proof -
      from e have "10 \<le> length pre + j"
        using j len by (simp add: endswith_def tk min_def)
      then have "10 - j + (length pre + j - 10) = length pre" using j by arith
      then show ?thesis by (simp add: add.commute)
    qed
    also have "\<dots> = take j ?P" by simp
    finally show False using no_border[OF j(1,2)] by simp
  qed
qed

lemma re_search_from_skip:
  "\<forall>k<length xs. \<not> endswith (seen @ take k xs) P \<Longrightarrow>
   re_search_from P t seen (xs @ ys) = re_search_from P t (seen @ xs) ys"
proof (induction xs arbitrary: seen)
  case Nil
  show ?case by simp
next
  case (Cons x xs)
  from Cons.prems have here: "\<not> endswith seen P" by force
  have "\<forall>k<length xs. \<not> endswith ((seen @ [x]) @ take k xs) P"
  proof (intro allI impI)
    fix k assume "k < length xs"
    then have "Suc k < length (x # xs)" by simp
    with Cons.prems have "\<not> endswith (seen @ take (Suc k) (x # xs)) P" by blast
    then show "\<not> endswith ((seen @ [x]) @ take k xs) P" by simp
  qed
  from Cons.IH[OF this] here show ?case by simp
qed

lemma re_search_from_here:
  "endswith seen P \<Longrightarrow> dot_star_lazy t (body @ t # post) = Some body \<Longrightarrow>
   re_search_from P t seen (body @ t # post) = Some body"
  by (cases "body @ t # post") auto

lemma re_search_first:
  assumes "\<not> str_contains (lit ''ursidae = '') pre"
    and "59 \<notin> set body" "10 \<notin> set body"
  shows "re_search (lit ''ursidae = '') 59 (pre @ lit ''ursidae = '' @ body @ 59 # post) = Some body"
proof -
  let ?P = "lit ''ursidae = ''"
  have skip: "\<forall>k<length (pre @ ?P). \<not> endswith ([] @ take k (pre @ ?P)) ?P"
    using no_early_match[OF assms(1)] by simp
  have "re_search_from ?P 59 [] ((pre @ ?P) @ (body @ 59 # post))
          = re_search_from ?P 59 ([] @ (pre @ ?P)) (body @ 59 # post)"
    using skip by (rule re_search_from_skip)
  moreover have "endswith (pre @ ?P) ?P" by (simp add: endswith_def)
  moreover have "dot_star_lazy 59 (body @ 59 # post) = Some body"
    using assms(2,3) by (rule dot_star_lazy_until)
  ultimately show ?thesis
    by (simp add: re_search_def re_search_from_here)
qed

text \<open>
  Claim C6.  For a script whose first \<open>ursidae = \<close> is followed by the list of the
  code points of a string and a semicolon, \<open>get_ursidae_name\<close> returns that string:
  it inverts the encoding of a string as the list of its code points.
\<close>

theorem ursidae_name_inverts_code_points:
  assumes "\<forall>c\<in>set nm. c < 0x110000"
    and "\<not> str_contains (lit ''ursidae = '') pre"
  shows "get_ursidae_name (pre @ lit ''ursidae = '' @ code_list nm @ lit '';'' @ post) = Inr nm"
proof -
  have "re_search (lit ''ursidae = '') 59 (pre @ lit ''ursidae = '' @ code_list nm @ 59 # post)
          = Some (code_list nm)"
    using assms(2) code_list_one_line by (rule re_search_first)
  moreover have "lit '';'' @ post = 59 # post" by (simp add: lit_Nil lit_Cons)
  ultimately show ?thesis
    using assms(1) by (simp add: get_ursidae_name_def json_loads_code_list convert_code_points)
qed

text \<open>
  The list \<open>[124,124,98,101,97,114,124,124]\<close> gives \<open>||bear||\<close>.
\<close>

theorem ursidae_name_inverts_code_points_witness:
  "get_ursidae_name (lit ''var ursidae = [124,124,98,101,97,114,124,124]; var kretzoi = {};'')
     = Inr (lit ''||bear||'')"
proof -
  have a: "\<forall>c\<in>set (lit ''||bear||''). c < 0x110000"
    by (simp add: lit_Nil lit_Cons)
  have b: "\<not> str_contains (lit ''ursidae = '') (lit ''var '')"
    by (simp add: lit_Nil lit_Cons startswith_def)
  have c: "lit ''var '' @ lit ''ursidae = '' @ code_list (lit ''||bear||'') @ lit '';''
             @ lit '' var kretzoi = {};''
           = lit ''var ursidae = [124,124,98,101,97,114,124,124]; var kretzoi = {};''"
    by (simp add: code_list_def lit_Nil lit_Cons digits.simps)
  from ursidae_name_inverts_code_points[OF a b, of "lit '' var kretzoi = {};''"] c
  show ?thesis by simp
qed

section \<open>The address of the third stage\<close>

text \<open>
  Claim C9.  The reference \<open>get_daxiongmao_file_url\<close> joins to the address of the
  response is \<open>/daxiongmao.js?\<close>, the form token, \<open>=\<close>, the base64 of the user agent,
  the identity name and the operating system put together in that order, and
  \<open>&key=aadfa\<close>.
\<close>

theorem daxiongmao_file_url_shape:
  assumes "meta_os (resp_meta response) = Some os"
    and "map_of (req_headers (resp_request response)) ''user-agent'' = Some ua_bytes"
    and "decode_utf8 ua_bytes = Inr ua"
    and "encode_utf8 (ua @ ursidae_name @ os) = Inr ua_ursidae_os"
    and "meta_carnivore_value (resp_meta response) = Some carnivore_value"
  shows "get_daxiongmao_file_url response ursidae_name
           = Inr (resp_urljoin response
                   (lit ''/daxiongmao.js?'' @ carnivore_value @ lit ''=''
                    @ b64encode ua_ursidae_os @ lit ''&key=aadfa''))"
proof -
  have "decode_utf8 (b64encode ua_ursidae_os) = Inr (b64encode ua_ursidae_os)"
    using b64encode_ascii by (rule decode_utf8_ascii)
  with assms show ?thesis by (simp add: get_daxiongmao_file_url_def)
qed

section \<open>A transaction from end to end\<close>

lemmas ex_simps =
  lit_Nil lit_Cons endswith_def startswith_def re_search_def resp_meta_def no_meta_def
  send_group_to_vote_def process_request_def get_random_platform_def all_platforms_def

lemma ex_session_1: "get_session_cookies (resp_headers ex_r1) = Inr (lit ''session'', lit ''XYZ'')"
  by (simp add: ex_r1_def get_session_cookies_def ex_simps)

lemma ex_carnivore: "get_carnivore_value ex_r1 = Inr (lit ''T1'')"
  by (simp add: ex_r1_def get_carnivore_value_def css_carnivoreatingbambu_input_def
      selector_list_attrib_def ex_simps)

lemma ex_rq1_meta: "req_meta ex_rq1 = no_meta\<lparr>meta_fake_platform := Some True, meta_group := Some ex_group, meta_os := Some (lit ''Win32'')\<rparr>"
  by (simp add: ex_rq1_def ex_simps)

lemma ex_rq1_ua: "req_headers ex_rq1 = [(''user-agent'', lit ''Mozilla/5.0 (Windows NT 5.1 rv: 52.0) Gecko/20100101 Firefox/52.0'')]"
  by (simp add: ex_rq1_def ex_simps)

lemma ex_r1_fields: "resp_request ex_r1 = ex_rq1" "resp_urljoin ex_r1 = ex_urljoin"
  by (simp_all add: ex_r1_def)

lemma ex_parse:
  "parse ex_r1 = Inr [\<lparr>req_url = lit ''https://panda.belvo.io/hastorni.js'', req_method = ''GET'',
      req_headers = req_headers ex_rq1, req_cookies = [(lit ''session'', lit ''XYZ'')],
      req_formdata = None,
      req_meta = no_meta\<lparr>meta_carnivore_value := Some (lit ''T1''), meta_group := Some ex_group,
                          meta_os := Some (lit ''Win32'')\<rparr>,
      req_callback = ParseHastorniJsFile, req_errback = None, req_dont_filter = True\<rparr>]"
  by (simp add: parse_def resp_meta_def ex_r1_fields ex_rq1_meta ex_session_1 ex_carnivore
      ex_urljoin_def lit_Nil lit_Cons)

lemma ex_rq2:
  "ex_rq2 = \<lparr>req_url = lit ''https://panda.belvo.io/hastorni.js'', req_method = ''GET'',
      req_headers = req_headers ex_rq1, req_cookies = [(lit ''session'', lit ''XYZ'')],
      req_formdata = None,
      req_meta = no_meta\<lparr>meta_carnivore_value := Some (lit ''T1''), meta_group := Some ex_group,
                          meta_os := Some (lit ''Win32'')\<rparr>,
      req_callback = ParseHastorniJsFile, req_errback = None, req_dont_filter = True\<rparr>"
  by (simp add: ex_rq2_def ex_parse)

lemma ex_r2_fields: "resp_request ex_r2 = ex_rq2" "resp_urljoin ex_r2 = ex_urljoin"
  by (simp_all add: ex_r2_def)

lemma ex_ursidae: "get_ursidae_name (resp_text ex_r2) = Inr (lit ''bear'')"
proof -
  have "re_search (lit ''ursidae = '') 59 (resp_text ex_r2) = Some (lit ''[98,101,97,114]'')"
    by (simp add: ex_r2_def re_search_def lit_Nil lit_Cons endswith_def)
  moreover have "json_loads (lit ''[98,101,97,114]'') = Some (JArray [JInt 98, JInt 101, JInt 97, JInt 114])"
    by (simp add: json_loads_def lit_Nil lit_Cons json_simps)
  ultimately show ?thesis
    by (simp add: get_ursidae_name_def convert_char_codes_to_str_def lit_Nil lit_Cons)
qed

lemma ex_letters_map:
  "get_letters_map (resp_text ex_r2)
     = Inr (JObject [(lit ''b'', JInt 1), (lit ''e'', JInt 2), (lit ''a'', JInt 3), (lit ''r'', JInt 4)])"
proof -
  have "re_search (lit ''kretzoi = '') 59 (resp_text ex_r2)
          = Some (lit ''{\"b\":1,\"e\":2,\"a\":3,\"r\":4}'')"
    by (simp add: ex_r2_def re_search_def lit_Nil lit_Cons endswith_def)
  moreover have "json_loads (lit ''{\"b\":1,\"e\":2,\"a\":3,\"r\":4}'')
          = Some (JObject [(lit ''b'', JInt 1), (lit ''e'', JInt 2), (lit ''a'', JInt 3), (lit ''r'', JInt 4)])"
    by (simp add: json_loads_def lit_Nil lit_Cons json_simps)
  ultimately show ?thesis
    by (simp add: get_letters_map_def)
qed

lemma ex_rats: "get_rats_hash ex_r2 = Inr (lit ''MXwyfDN8NA=='')"
  by (simp add: get_rats_hash_def ex_letters_map resp_meta_def ex_r2_fields ex_rq2 ex_group_def
      lit_Nil lit_Cons dict_get_def str_int_def digits.simps utf8_char_def b64_char_def)

lemma ex_url:
  "get_daxiongmao_file_url ex_r2 (lit ''bear'')
     = Inr (lit ''https://panda.belvo.io/daxiongmao.js?T1=TW96aWxsYS81LjAgKFdpbmRvd3MgTlQgNS4xIHJ2OiA1Mi4wKSBHZWNrby8yMDEwMDEwMSBGaXJlZm94LzUyLjBiZWFyV2luMzI=&key=aadfa'')"
  by (simp add: get_daxiongmao_file_url_def resp_meta_def ex_r2_fields ex_rq2 ex_rq1_ua
      ex_urljoin_def lit_Nil lit_Cons utf8_char_def b64_char_def)


lemma ex_parse_hastorni: "parse_hastorni_js_file ex_r2 = Inr [ex_rq3]"
proof -
  have "\<exists>rq. parse_hastorni_js_file ex_r2 = Inr [rq]"
    by (simp add: parse_hastorni_js_file_def resp_meta_def ex_r2_fields ex_rq2 ex_ursidae ex_url ex_rats)
  then show ?thesis by (auto simp: ex_rq3_def)
qed

lemma ex_rq3:
  "req_meta ex_rq3 = no_meta\<lparr>meta_group := Some ex_group, meta_rats_hash := Some (lit ''MXwyfDN8NA=='')\<rparr>"
  "req_errback ex_rq3 = None"
  by (simp_all add: ex_rq3_def parse_hastorni_js_file_def resp_meta_def ex_r2_fields ex_rq2
      ex_ursidae ex_url ex_rats)

lemma ex_r3_fields: "resp_request ex_r3 = ex_rq3"
  by (simp add: ex_r3_def)

lemma ex_rogue: "get_rogue_racoons_hash (resp_text ex_r3) = Inr (lit ''H1'')"
  by (simp add: ex_r3_def get_rogue_racoons_hash_def re_search_def lit_Nil lit_Cons endswith_def)

lemma ex_session_3: "get_session_cookies (resp_headers ex_r3) = Inr (lit ''session'', lit ''NEW'')"
  by (simp add: ex_r3_def get_session_cookies_def ex_simps)

lemma ex_parse_daxiongmao: "parse_daxiongmao_js_file ex_r3 = Inr [ex_rq4]"
proof -
  have "\<exists>rq. parse_daxiongmao_js_file ex_r3 = Inr [rq]"
    by (simp add: parse_daxiongmao_js_file_def resp_meta_def ex_r3_fields ex_rq3 ex_rogue ex_session_3)
  then show ?thesis by (auto simp: ex_rq4_def)
qed

lemma ex_rq4_formdata:
  "req_formdata ex_rq4 = Some [(lit ''rogue_racoons'', lit ''H1''), (lit ''username'', lit ''bear''),
                               (lit ''survive'', lit ''maybe''), (lit ''rats'', lit ''MXwyfDN8NA=='')]"
  by (simp add: ex_rq4_def parse_daxiongmao_js_file_def resp_meta_def ex_r3_fields ex_rq3 ex_rogue
      ex_session_3 ex_group_def)

text \<open>
  Claim C3.  The request that \<open>parse_daxiongmao_js_file\<close> yields is a POST to the
  voting address whose form has exactly four fields: \<open>rogue_racoons\<close>, the token
  taken from the payload; \<open>username\<close>, the name of the group; \<open>survive\<close>, the vote
  of the group; and \<open>rats\<close>, the group hash the stage before derived.
\<close>

theorem submission_form_has_exactly_four_fields:
  assumes "parse_hastorni_js_file r2 = Inr [rq3]"
    and "resp_request r3 = rq3"
    and "parse_daxiongmao_js_file r3 = Inr rs"
  shows "\<exists>rq g rogue_racoons rats fd.
           rs = [rq] \<and> req_method rq = ''POST'' \<and> req_url rq = voting_url
         \<and> meta_group (resp_meta r2) = Some g
         \<and> get_rogue_racoons_hash (resp_text r3) = Inr rogue_racoons
         \<and> get_rats_hash r2 = Inr rats
         \<and> req_formdata rq = Some fd
         \<and> fd = [(lit ''rogue_racoons'', rogue_racoons), (lit ''username'', name g),
                 (lit ''survive'', vote g), (lit ''rats'', rats)]
         \<and> length fd = 4 \<and> distinct (map fst fd)"
proof -
  from assms(1) obtain g rats where g: "meta_group (resp_meta r2) = Some g"
    and rats: "get_rats_hash r2 = Inr rats"
    and m3: "req_meta rq3 = no_meta\<lparr>meta_group := Some g, meta_rats_hash := Some rats\<rparr>"
    by (auto simp: parse_hastorni_js_file_def split: option.splits sum.splits)
  from assms(2) m3 have m: "meta_group (resp_meta r3) = Some g" "meta_rats_hash (resp_meta r3) = Some rats"
    by (simp_all add: resp_meta_def)
  from assms(3) m obtain rogue_racoons key val where
    "get_rogue_racoons_hash (resp_text r3) = Inr rogue_racoons"
    "rs = [\<lparr>req_url = voting_url, req_method = ''POST'',
            req_headers = req_headers (resp_request r3),
            req_cookies = [(key, val)],
            req_formdata = Some [(lit ''rogue_racoons'', rogue_racoons), (lit ''username'', name g),
                                 (lit ''survive'', vote g), (lit ''rats'', rats)],
            req_meta = no_meta\<lparr>meta_group := Some g\<rparr>,
            req_callback = ParseVotingResult, req_errback = Some HandleVoteFailure,
            req_dont_filter = False\<rparr>]"
    by (auto simp: parse_daxiongmao_js_file_def Let_def split: sum.splits)
  with g rats show ?thesis
    by (simp add: lit_Nil lit_Cons)
qed

text \<open>
  The transaction of the example ends in the form
  \<open>{rogue_racoons: H1, username: bear, survive: maybe, rats: base64(1|2|3|4)}\<close>.
\<close>

theorem submission_form_has_exactly_four_fields_witness:
  "parse_hastorni_js_file ex_r2 = Inr [ex_rq3] \<and> resp_request ex_r3 = ex_rq3
   \<and> parse_daxiongmao_js_file ex_r3 = Inr [ex_rq4]
   \<and> req_method ex_rq4 = ''POST''
   \<and> req_formdata ex_rq4 = Some [(lit ''rogue_racoons'', lit ''H1''), (lit ''username'', lit ''bear''),
                                  (lit ''survive'', lit ''maybe''), (lit ''rats'', lit ''MXwyfDN8NA=='')]"
  using submission_form_has_exactly_four_fields[OF ex_parse_hastorni ex_r3_fields ex_parse_daxiongmao]
    ex_parse_hastorni ex_r3_fields ex_parse_daxiongmao ex_rq4_formdata
  by auto

section \<open>The vote, the retry and the result\<close>

text \<open>
  Claim C10.  Through the three callbacks of a transaction the vote of the group
  reaches the field \<open>survive\<close> as it was stored, whatever text it is; the vote of
  the fifth group is the \<open>final_decision\<close> argument as the caller gave it.
\<close>

theorem vote_is_forwarded_unchanged:
  assumes "resp_request r1 = process_request rnd (send_group_to_vote g)"
    and "parse r1 = Inr [rq2]"
    and "resp_request r2 = rq2"
    and "parse_hastorni_js_file r2 = Inr [rq3]"
    and "resp_request r3 = rq3"
    and "parse_daxiongmao_js_file r3 = Inr [rq4]"
  shows "(\<exists>fd. req_formdata rq4 = Some fd \<and> map_of fd (lit ''survive'') = Some (vote g)
              \<and> map_of fd (lit ''username'') = Some (name g))
         \<and> length (groups final_decision) = 5
         \<and> vote (groups final_decision ! 4) = final_decision
         \<and> init [''final_decision'' \<mapsto> final_decision] = Inr (groups final_decision)"
proof -
  from assms(1) have g1: "meta_group (resp_meta r1) = Some g"
    by (simp add: resp_meta_def process_request_def send_group_to_vote_def Let_def)
  from assms(2) g1 have "meta_group (req_meta rq2) = Some g"
    by (auto simp: parse_def Let_def split: option.splits sum.splits)
  with assms(3) have g2: "meta_group (resp_meta r2) = Some g"
    by (simp add: resp_meta_def)
  from assms(4) g2 have "meta_group (req_meta rq3) = Some g"
    by (auto simp: parse_hastorni_js_file_def split: option.splits sum.splits)
  with assms(5) have g3: "meta_group (resp_meta r3) = Some g"
    by (simp add: resp_meta_def)
  from assms(6) g3 have "\<exists>fd. req_formdata rq4 = Some fd \<and> map_of fd (lit ''survive'') = Some (vote g)
              \<and> map_of fd (lit ''username'') = Some (name g)"
    by (auto simp: parse_daxiongmao_js_file_def Let_def lit_Nil lit_Cons split: option.splits sum.splits)
  then show ?thesis
    by (simp add: groups_def init_def)
qed

text \<open>
  The vote \<open>maybe\<close>, which is neither \<open>0\<close> nor \<open>1\<close>, is submitted as it is.
\<close>

theorem vote_is_forwarded_unchanged_witness:
  "resp_request ex_r1 = process_request 0 (send_group_to_vote ex_group)
   \<and> parse ex_r1 = Inr [ex_rq2] \<and> resp_request ex_r2 = ex_rq2
   \<and> parse_hastorni_js_file ex_r2 = Inr [ex_rq3] \<and> resp_request ex_r3 = ex_rq3
   \<and> parse_daxiongmao_js_file ex_r3 = Inr [ex_rq4] \<and> vote ex_group = lit ''maybe''
   \<and> (\<exists>fd. req_formdata ex_rq4 = Some fd \<and> map_of fd (lit ''survive'') = Some (lit ''maybe''))"
proof -
  have a: "resp_request ex_r1 = process_request 0 (send_group_to_vote ex_group)"
    by (simp add: ex_r1_fields ex_rq1_def)
  have b: "parse ex_r1 = Inr [ex_rq2]"
    by (simp add: ex_parse ex_rq2)
  from vote_is_forwarded_unchanged[OF a b ex_r2_fields(1) ex_parse_hastorni ex_r3_fields ex_parse_daxiongmao]
  show ?thesis using a b ex_r2_fields(1) ex_parse_hastorni ex_r3_fields ex_parse_daxiongmao
    by (auto simp: ex_group_def)
qed



lemma ex_rq2_errback: "req_errback ex_rq2 = None"
  by (simp add: ex_rq2)






text \<open>
  Claim C2.  When the text contains \<open>pandas_future\<close>, with or without the
  thank-you marker, the whole text is parsed as JSON: the value is written to the
  results, or the parse error is raised as \<open>Could not read election result\<close>.
  When the text contains neither marker, the error \<open>Response page not expected\<close>
  carries the text.  When it contains only \<open>Thank you bea\<close>, the callback ends
  with no error and nothing written.
\<close>

theorem voting_result_classification:
  "(str_contains (lit ''pandas_future'') (resp_text response) \<longrightarrow>
      parse_voting_result now fs response =
        (case json_loads (resp_text response) of
           None \<Rightarrow> Inl (ValueErrorCause ''Could not read election result: '' JSONDecodeError)
         | Some election_result \<Rightarrow> Inr (write_output_to_file now election_result fs)))
   \<and> (\<not> str_contains (lit ''Thank you bea'') (resp_text response)
      \<and> \<not> str_contains (lit ''pandas_future'') (resp_text response) \<longrightarrow>
      parse_voting_result now fs response =
        Inl (ValueErrorText ''Response page not expected: '' (resp_text response)))
   \<and> (str_contains (lit ''Thank you bea'') (resp_text response)
      \<and> \<not> str_contains (lit ''pandas_future'') (resp_text response) \<longrightarrow>
      parse_voting_result now fs response = Inr fs)"
  by (simp add: parse_voting_result_def Let_def)

lemma closed_json:
  "json_loads (lit ''{\"pandas_future\": 1}'') = Some (JObject [(lit ''pandas_future'', JInt 1)])"
  by (simp add: json_loads_def lit_Nil lit_Cons json_simps)

lemma not_json: "json_loads (lit ''Thank you bear, pandas_future'') = None"
  by (simp add: json_loads_def lit_Nil lit_Cons json_simps)

text \<open>
  One response for each of the four outcomes.
\<close>

theorem voting_result_classification_witness:
  "parse_voting_result (lit ''2023-02-01_10-00-00'') [] (text_response (lit ''{\"pandas_future\": 1}''))
     = Inr [(lit ''results/election-result-'' @ lit ''2023-02-01_10-00-00'' @ lit ''.json'',
             JObject [(lit ''pandas_future'', JInt 1)])]
   \<and> parse_voting_result [] [] (text_response (lit ''Thank you bear, pandas_future''))
     = Inl (ValueErrorCause ''Could not read election result: '' JSONDecodeError)
   \<and> parse_voting_result [] [] (text_response (lit ''Bad gateway''))
     = Inl (ValueErrorText ''Response page not expected: '' (lit ''Bad gateway''))
   \<and> parse_voting_result [] [] (text_response (lit ''Thank you bear'')) = Inr []"
proof -
  have t: "resp_text (text_response x) = x" for x
    by (simp add: text_response_def)
  have m1: "str_contains (lit ''pandas_future'') (resp_text (text_response (lit ''{\"pandas_future\": 1}'')))"
    by (simp add: t lit_Nil lit_Cons startswith_def)
  have m2: "str_contains (lit ''pandas_future'') (resp_text (text_response (lit ''Thank you bear, pandas_future'')))"
    by (simp add: t lit_Nil lit_Cons startswith_def)
  have m3: "\<not> str_contains (lit ''Thank you bea'') (resp_text (text_response (lit ''Bad gateway'')))
            \<and> \<not> str_contains (lit ''pandas_future'') (resp_text (text_response (lit ''Bad gateway'')))"
    by (simp add: t lit_Nil lit_Cons startswith_def)
  have m4: "str_contains (lit ''Thank you bea'') (resp_text (text_response (lit ''Thank you bear'')))
            \<and> \<not> str_contains (lit ''pandas_future'') (resp_text (text_response (lit ''Thank you bear'')))"
    by (simp add: t lit_Nil lit_Cons startswith_def)
  from voting_result_classification[of "text_response (lit ''{\"pandas_future\": 1}'')"
      "lit ''2023-02-01_10-00-00''" "[]"] m1
  have "parse_voting_result (lit ''2023-02-01_10-00-00'') [] (text_response (lit ''{\"pandas_future\": 1}''))
     = (case json_loads (resp_text (text_response (lit ''{\"pandas_future\": 1}''))) of
          None \<Rightarrow> Inl (ValueErrorCause ''Could not read election result: '' JSONDecodeError)
        | Some election_result \<Rightarrow>
            Inr (write_output_to_file (lit ''2023-02-01_10-00-00'') election_result []))"
    by blast
  then have a: "parse_voting_result (lit ''2023-02-01_10-00-00'') [] (text_response (lit ''{\"pandas_future\": 1}''))
     = Inr [(lit ''results/election-result-'' @ lit ''2023-02-01_10-00-00'' @ lit ''.json'',
             JObject [(lit ''pandas_future'', JInt 1)])]"
    by (simp add: t closed_json write_output_to_file_def)
  from voting_result_classification[of "text_response (lit ''Thank you bear, pandas_future'')" "[]" "[]"] m2
  have "parse_voting_result [] [] (text_response (lit ''Thank you bear, pandas_future''))
     = (case json_loads (resp_text (text_response (lit ''Thank you bear, pandas_future''))) of
          None \<Rightarrow> Inl (ValueErrorCause ''Could not read election result: '' JSONDecodeError)
        | Some election_result \<Rightarrow> Inr (write_output_to_file [] election_result []))"
    by blast
  then have b: "parse_voting_result [] [] (text_response (lit ''Thank you bear, pandas_future''))
     = Inl (ValueErrorCause ''Could not read election result: '' JSONDecodeError)"
    by (simp add: t not_json)
  from voting_result_classification[of "text_response (lit ''Bad gateway'')" "[]" "[]"] m3
  have "parse_voting_result [] [] (text_response (lit ''Bad gateway''))
     = Inl (ValueErrorText ''Response page not expected: ''
             (resp_text (text_response (lit ''Bad gateway''))))"
    by blast
  then have c: "parse_voting_result [] [] (text_response (lit ''Bad gateway''))
     = Inl (ValueErrorText ''Response page not expected: '' (lit ''Bad gateway''))"
    by (simp add: t)
  from voting_result_classification[of "text_response (lit ''Thank you bear'')" "[]" "[]"] m4
  have d: "parse_voting_result [] [] (text_response (lit ''Thank you bear'')) = Inr []"
    by blast
  from a b c d show ?thesis by blast
qed

text \<open>
  Claim C4.  \<open>get_session_cookies\<close> takes the first attribute that starts with
  \<open>session=\<close>, but it splits it at every \<open>=\<close> and unpacks the parts into two
  names: a value that holds a \<open>=\<close>, such as padded base64, is the \<open>ValueError\<close>
  of the unpacking and not the pair of name and value.
\<close>

theorem session_value_with_equals_sign_fails:
  "get_session_cookies [(''set-cookie'', lit ''session=dG9rZW4=; Path=/; HttpOnly'')]
     = Inl (ValueError ''too many values to unpack (expected 2)'')"
  by (simp add: get_session_cookies_def ex_simps)

lemma get_session_cookies_example:
  "get_session_cookies [(''set-cookie'', lit ''session=XYZ; Path=/; HttpOnly'')]
     = Inr (lit ''session'', lit ''XYZ'')"
  "get_session_cookies [(''set-cookie'', lit ''theme=dark; Path=/'')]
     = Inl (ValueError ''Session cookie not found in Set-Cookie.'')"
  "get_session_cookies [] = Inl (ValueError ''No 'Set-Cookie' header found in the response.'')"
  by (simp_all add: get_session_cookies_def ex_simps)

text \<open>
  Claim C5.  On a page without the element, the selection is an empty list and not
  \<open>None\<close>; \<open>get_carnivore_value\<close> goes on to read the attribute and raises the
  error of the missing attribute, not the one of the missing element.
\<close>

theorem absent_element_is_reported_as_missing_attribute:
  "css_carnivoreatingbambu_input no_element_response = []
   \<and> get_carnivore_value no_element_response
       = Inl (ValueError ''Value attribute not found in the input element.'')"
  by (simp add: no_element_response_def get_carnivore_value_def css_carnivoreatingbambu_input_def
      selector_list_attrib_def lit_Nil lit_Cons)

lemma element_not_found_is_never_raised:
  "get_carnivore_value response
     \<noteq> Inl (ValueError ''Input element with id 'carnivoreatingbambu' not found in the response.'')"
  by (simp add: get_carnivore_value_def split: option.splits)


text \<open>
  In the transaction of the example the address carries the token \<open>T1\<close> and the
  base64 of the user agent, \<open>bear\<close> and \<open>Win32\<close>.
\<close>

theorem daxiongmao_file_url_shape_witness:
  "get_daxiongmao_file_url ex_r2 (lit ''bear'')
     = Inr (lit ''https://panda.belvo.io/daxiongmao.js?T1=TW96aWxsYS81LjAgKFdpbmRvd3MgTlQgNS4xIHJ2OiA1Mi4wKSBHZWNrby8yMDEwMDEwMSBGaXJlZm94LzUyLjBiZWFyV2luMzI=&key=aadfa'')"
proof -
  let ?ua = "lit ''Mozilla/5.0 (Windows NT 5.1 rv: 52.0) Gecko/20100101 Firefox/52.0''"
  have a: "meta_os (resp_meta ex_r2) = Some (lit ''Win32'')"
    by (simp add: resp_meta_def ex_r2_fields ex_rq2)
  have b: "map_of (req_headers (resp_request ex_r2)) ''user-agent'' = Some ?ua"
    by (simp add: ex_r2_fields ex_rq2 ex_rq1_ua)
  have c: "decode_utf8 ?ua = Inr ?ua"
    by (simp add: lit_Nil lit_Cons)
  have d: "encode_utf8 (?ua @ lit ''bear'' @ lit ''Win32'') = Inr (?ua @ lit ''bear'' @ lit ''Win32'')"
    by (simp add: lit_Nil lit_Cons utf8_char_def)
  have e: "meta_carnivore_value (resp_meta ex_r2) = Some (lit ''T1'')"
    by (simp add: resp_meta_def ex_r2_fields ex_rq2)
  from daxiongmao_file_url_shape[OF a b c d e] show ?thesis
    by (simp add: ex_r2_fields ex_urljoin_def lit_Nil lit_Cons b64_char_def)
qed

end
